theory Spec2Isabelle
  imports Complex_Main "HOL-Library.Word" "HOL-Library.Char_ord"
    "HOL-Library.List_Lexorder" "HOL-Library.Product_Lexorder"
begin

unbundle bit_operations_syntax

section \<open>Data model\<close>

text \<open>
  The actions-suggestions engine of libtextclassifier (\<^verbatim>\<open>ActionsSuggestions\<close>), the
  double-array trie (\<^verbatim>\<open>DoubleArrayTrie::GatherPrefixMatches\<close>) and the reflective
  flatbuffer (\<^verbatim>\<open>ReflectiveFlatbuffer::Set\<close>).

  Conventions of the embedding:
  \<^item> the value of a C++ \<^verbatim>\<open>float\<close> is a \<^typ>\<open>real\<close>, and NaN is not represented. Floats are
    compared as the reals they are. The one float operation of the code, the quotient of two
    integers converted to \<^verbatim>\<open>float\<close>, is not computed here: it is \<open>float_quotient\<close>, a
    parameter of the engine;
  \<^item> a C++ \<^verbatim>\<open>int\<close> is an \<^typ>\<open>int\<close> (no sum of text lengths or message counts is taken to
    overflow), an index into a vector is a \<^typ>\<open>nat\<close>;
  \<^item> a \<^verbatim>\<open>std::string\<close> is a \<^typ>\<open>string\<close>, its \<^verbatim>\<open>length()\<close> the number of bytes;
  \<^item> a nullable pointer or an optional flatbuffer field is an \<^typ>\<open>'a option\<close>;
  \<^item> a function that can abort the process (a failed \<^verbatim>\<open>TC3_CHECK\<close>) or run into undefined
    behaviour (\<^verbatim>\<open>back()\<close> of an empty vector) returns an option, \<^term>\<open>None\<close> being the abort;
  \<^item> collaborators whose code is outside the sources (regular expressions, the TensorFlow
    Lite interpreter, the ranker, the annotator, locale parsing, the flatbuffer builder of
    the entity data) are fields of the records below, so every theorem holds for all of them.
\<close>

subsection \<open>Conversations and responses\<close>

text \<open>A parsed locale; \<^verbatim>\<open>IsValid()\<close> and \<^verbatim>\<open>IsUnknown()\<close> are accessors of the class.\<close>

record Locale =
  Language :: string
  Script :: string
  Region :: string
  IsValid :: bool
  IsUnknown :: bool

record ClassificationResult =
  collection :: string
  score :: real

record AnnotatedSpan =
  span :: "int \<times> int"
  classification :: "ClassificationResult list"

record ConversationMessage =
  user_id :: int
  message_text :: string
  reference_time_ms_utc :: int
  annotations :: "AnnotatedSpan list"
  locales :: string

record Conversation =
  messages :: "ConversationMessage list"

record ActionSuggestionAnnotation =
  message_index :: int
  annotation_span :: "int \<times> int"
  entity :: ClassificationResult
  name :: string
  annotation_text :: string

record ActionSuggestion =
  response_text :: string
  suggestion_type :: string
  suggestion_score :: real
  suggestion_annotations :: "ActionSuggestionAnnotation list"
  serialized_entity_data :: string

record ActionsSuggestionsResponse =
  sensitivity_score :: real
  triggering_score :: real
  output_filtered_sensitivity :: bool
  output_filtered_min_triggering_score :: bool
  output_filtered_low_confidence :: bool
  output_filtered_locale_mismatch :: bool
  actions :: "ActionSuggestion list"

record 'o ActionSuggestionOptions =
  annotation_options :: 'o
  ignore_min_replies_triggering_threshold :: bool

subsection \<open>The model configuration (the flatbuffer \<^verbatim>\<open>ActionsModel\<close>)\<close>

record TriggeringPreconditions =
  min_smart_reply_triggering_score :: real
  max_sensitive_topic_score :: real
  suppress_on_sensitive_topic :: bool
  min_input_length :: int
  max_input_length :: int
  min_locale_match_fraction :: real
  handle_missing_locale_as_supported :: bool
  handle_unknown_locale_as_supported :: bool
  suppress_on_low_confidence_input :: bool

record TensorflowLiteModelSpec =
  input_user_id :: int
  input_context :: int
  input_context_length :: int
  input_time_diffs :: int
  input_num_suggestions :: int
  output_replies :: int
  output_replies_scores :: int
  output_sensitive_topic_score :: int
  output_triggering_score :: int
  output_actions_scores :: int

record ActionTypeOptions =
  action_name :: string
  enabled :: bool
  min_triggering_score :: real

record ActionSuggestionSpec =
  spec_type :: string
  spec_response_text :: "string option"
  spec_serialized_entity_data :: "string option"
  spec_score :: real

record AnnotationMapping =
  annotation_collection :: string
  mapping_action :: ActionSuggestionSpec
  use_annotation_score :: bool
  min_annotation_score :: real

record AnnotationActionsSpec =
  annotation_mapping :: "AnnotationMapping list option"
  deduplicate_annotations :: bool

record CapturingGroup =
  group_id :: int
  entity_field :: string

record RuleActionSpec =
  action :: ActionSuggestionSpec
  capturing_group :: "CapturingGroup list option"

record Rule =
  rule_actions :: "RuleActionSpec list"

record ActionsModel =
  preconditions :: TriggeringPreconditions
  tflite_model_spec :: TensorflowLiteModelSpec
  max_conversation_history_length :: int
  num_smart_replies :: int
  smart_reply_action_type :: string
  action_type :: "ActionTypeOptions list"
  annotation_actions_spec :: "AnnotationActionsSpec option"

subsection \<open>Collaborators\<close>

text \<open>
  One call of \<^verbatim>\<open>UniLib::RegexMatcher::Find(&status)\<close>: its return value, the status it
  leaves, and the capturing groups of the match it stands on. A compiled pattern is the
  function from a text to the results of the successive \<^verbatim>\<open>Find\<close> calls on a fresh matcher;
  after the last element of the list, \<^verbatim>\<open>Find\<close> returns false.
\<close>

record RegexFind =
  found :: bool
  status :: int
  group :: "int \<Rightarrow> string option"

text \<open>
  \<^verbatim>\<open>UniLib::RegexMatcher::kNoError\<close>. The sources give only its name; the value is taken
  to be 0, and only the examples depend on it.
\<close>

definition kNoError :: int where
  "kNoError = 0"

record CompiledRule =
  rule :: Rule
  pattern :: "string \<Rightarrow> RegexFind list"

text \<open>A \<^verbatim>\<open>TensorView<float>\<close> over an output tensor: \<^verbatim>\<open>data()\<close> is a raw pointer.\<close>

record TensorView =
  is_valid :: bool
  dim :: "nat \<Rightarrow> int"
  tensor_size :: int
  data :: "nat \<Rightarrow> real"

record Interpreter =
  float_output :: "int \<Rightarrow> TensorView"
  string_output :: "int \<Rightarrow> string list"

record ModelInput =
  context_input :: "string list option"
  context_length_input :: "int option"
  user_id_input :: "int list option"
  num_suggestions_input :: "int option"
  time_diffs_input :: "real list option"

text \<open>
  The \<^verbatim>\<open>TfLiteModelExecutor\<close>: whether an interpreter can be built, whether its tensors can
  be allocated, and what \<^verbatim>\<open>Invoke\<close> leaves in the outputs (\<^term>\<open>None\<close> when it fails).
\<close>

record TfLiteModelExecutor =
  CreateInterpreter :: bool
  AllocateTensors :: bool
  Invoke :: "ModelInput \<Rightarrow> Interpreter option"

text \<open>The \<^verbatim>\<open>ReflectiveFlatbufferBuilder\<close> of the entity data, over any type of records.\<close>

record 'e ReflectiveFlatbufferBuilder =
  NewRoot :: "'e option"
  MergeFromSerializedFlatbuffer :: "string \<Rightarrow> 'e \<Rightarrow> 'e"
  Serialize :: "'e \<Rightarrow> string"

text \<open>
  The engine after \<^verbatim>\<open>ValidateAndInitialize\<close> (members without their trailing underscore;
  \<^verbatim>\<open>locales_\<close> is \<open>model_locales\<close>). Besides its members it carries the functions
  it calls and the sources do not define: \<^verbatim>\<open>ParseLocales\<close> (\<^term>\<open>None\<close> when it returns
  false), \<^verbatim>\<open>UTF8Substring\<close>, \<^verbatim>\<open>SetFieldFromCapturingGroup\<close> (\<^term>\<open>None\<close> when it returns
  false), \<^verbatim>\<open>RankActions\<close> of the ranker, the two scores of a default-constructed
  response, and \<open>float_quotient x y\<close>, the \<^verbatim>\<open>float\<close> that the division of \<open>x\<close> converted to
  \<^verbatim>\<open>float\<close> by \<open>y\<close> converted to \<^verbatim>\<open>float\<close> yields.
\<close>

record 'e ActionsSuggestions =
  model :: ActionsModel
  model_locales :: "Locale list"
  rules :: "CompiledRule list"
  low_confidence_rules :: "CompiledRule list"
  model_executor :: "TfLiteModelExecutor option"
  entity_data_builder :: "'e ReflectiveFlatbufferBuilder option"
  RankActions :: "ActionsSuggestionsResponse \<Rightarrow> bool \<times> ActionsSuggestionsResponse"
  ParseLocales :: "string \<Rightarrow> Locale list option"
  UTF8Substring :: "string \<Rightarrow> int \<Rightarrow> int \<Rightarrow> string"
  SetFieldFromCapturingGroup :: "int \<Rightarrow> string \<Rightarrow> RegexFind \<Rightarrow> 'e \<Rightarrow> 'e option"
  initial_scores :: "real \<times> real"
  float_quotient :: "int \<Rightarrow> int \<Rightarrow> real"

section \<open>The locale matcher\<close>

definition kAnyMatch :: string where
  "kAnyMatch = ''*''"

text \<open>The three tests of the loop body of \<^verbatim>\<open>IsLocaleSupportedByModel\<close>.\<close>

definition language_matches :: "Locale \<Rightarrow> Locale \<Rightarrow> bool" where
  "language_matches model_locale locale \<longleftrightarrow>
     Language model_locale = [] \<or> Language model_locale = kAnyMatch \<or>
     Language model_locale = Language locale"

definition script_matches :: "Locale \<Rightarrow> Locale \<Rightarrow> bool" where
  "script_matches model_locale locale \<longleftrightarrow>
     Script model_locale = [] \<or> Script model_locale = kAnyMatch \<or>
     Script locale = [] \<or> Script model_locale = Script locale"

definition region_matches :: "Locale \<Rightarrow> Locale \<Rightarrow> bool" where
  "region_matches model_locale locale \<longleftrightarrow>
     Region model_locale = [] \<or> Region model_locale = kAnyMatch \<or>
     Region locale = [] \<or> Region model_locale = Region locale"

text \<open>The loop over \<^verbatim>\<open>locales_\<close>: invalid model locales are skipped.\<close>

fun locale_loop :: "Locale list \<Rightarrow> Locale \<Rightarrow> bool" where
  "locale_loop [] locale = False"
| "locale_loop (model_locale # rest) locale =
     (if \<not> IsValid model_locale then locale_loop rest locale
      else if language_matches model_locale locale \<and> script_matches model_locale locale \<and>
              region_matches model_locale locale
      then True
      else locale_loop rest locale)"

definition IsLocaleSupportedByModel :: "'e ActionsSuggestions \<Rightarrow> Locale \<Rightarrow> bool" where
  "IsLocaleSupportedByModel a locale =
     (if \<not> IsValid locale then False
      else if IsUnknown locale
      then handle_unknown_locale_as_supported (preconditions (model a))
      else locale_loop (model_locales a) locale)"

fun any_locale_loop :: "'e ActionsSuggestions \<Rightarrow> Locale list \<Rightarrow> bool" where
  "any_locale_loop a [] = False"
| "any_locale_loop a (locale # rest) =
     (if IsLocaleSupportedByModel a locale then True else any_locale_loop a rest)"

definition IsAnyLocaleSupportedByModel :: "'e ActionsSuggestions \<Rightarrow> Locale list \<Rightarrow> bool" where
  "IsAnyLocaleSupportedByModel a message_locales =
     (if message_locales = []
      then handle_missing_locale_as_supported (preconditions (model a))
      else any_locale_loop a message_locales)"

section \<open>The annotation mapper\<close>

text \<open>
  The \<^verbatim>\<open>std::map\<close> of \<^verbatim>\<open>DeduplicateAnnotations\<close>, as the list of its entries in key
  order: \<^verbatim>\<open>find\<close>, assignment through the iterator, and \<^verbatim>\<open>insert\<close> of a new key.
  Strings compare bytewise and pairs lexicographically, as in C++.
\<close>

fun map_find :: "'k \<Rightarrow> ('k \<times> 'v) list \<Rightarrow> 'v option" where
  "map_find k [] = None"
| "map_find k ((k', v) # rest) = (if k' = k then Some v else map_find k rest)"

fun map_assign :: "'k \<Rightarrow> 'v \<Rightarrow> ('k \<times> 'v) list \<Rightarrow> ('k \<times> 'v) list" where
  "map_assign k v [] = []"
| "map_assign k v ((k', v') # rest) =
     (if k' = k then (k', v) # rest else (k', v') # map_assign k v rest)"

fun map_insert :: "'k::linorder \<Rightarrow> 'v \<Rightarrow> ('k \<times> 'v) list \<Rightarrow> ('k \<times> 'v) list" where
  "map_insert k v [] = [(k, v)]"
| "map_insert k v ((k', v') # rest) =
     (if k < k' then (k, v) # (k', v') # rest else (k', v') # map_insert k v rest)"

definition dedup_key :: "ActionSuggestionAnnotation list \<Rightarrow> nat \<Rightarrow> string \<times> string" where
  "dedup_key annotations_in i = (name (annotations_in ! i), annotation_text (annotations_in ! i))"

definition dedup_score :: "ActionSuggestionAnnotation list \<Rightarrow> nat \<Rightarrow> real" where
  "dedup_score annotations_in i = score (entity (annotations_in ! i))"

text \<open>One round of the loop of \<^verbatim>\<open>DeduplicateAnnotations\<close>, for the index \<open>i\<close>.\<close>

definition dedup_step ::
  "ActionSuggestionAnnotation list \<Rightarrow> nat \<Rightarrow> ((string \<times> string) \<times> nat) list
     \<Rightarrow> ((string \<times> string) \<times> nat) list" where
  "dedup_step annotations_in i deduplicated_annotations =
     (let key = dedup_key annotations_in i in
      case map_find key deduplicated_annotations of
        Some entry \<Rightarrow>
          (if dedup_score annotations_in entry < dedup_score annotations_in i
           then map_assign key i deduplicated_annotations
           else deduplicated_annotations)
      | None \<Rightarrow> map_insert key i deduplicated_annotations)"

definition DeduplicateAnnotations :: "ActionSuggestionAnnotation list \<Rightarrow> nat list" where
  "DeduplicateAnnotations annotations_in =
     map snd (fold (dedup_step annotations_in) [0..<length annotations_in] [])"

text \<open>
  \<^verbatim>\<open>CreateActionsFromAnnotation\<close>: the loop over the mapping table. Its callers have
  checked that the table is there.
\<close>

fun create_actions_loop ::
  "AnnotationMapping list \<Rightarrow> ActionSuggestionAnnotation \<Rightarrow> ActionsSuggestionsResponse
     \<Rightarrow> ActionsSuggestionsResponse" where
  "create_actions_loop [] annotation suggestions = suggestions"
| "create_actions_loop (mapping # rest) annotation suggestions =
     (if collection (entity annotation) = annotation_collection mapping
      then
        (if score (entity annotation) < min_annotation_score mapping
         then create_actions_loop rest annotation suggestions
         else create_actions_loop rest annotation
           (suggestions\<lparr>actions := actions suggestions @
              [\<lparr>response_text = [],
                suggestion_type = spec_type (mapping_action mapping),
                suggestion_score =
                  (if use_annotation_score mapping then score (entity annotation)
                   else spec_score (mapping_action mapping)),
                suggestion_annotations = [annotation],
                serialized_entity_data =
                  (case spec_serialized_entity_data (mapping_action mapping) of
                     Some s \<Rightarrow> s | None \<Rightarrow> [])\<rparr>]\<rparr>))
      else create_actions_loop rest annotation suggestions)"

definition CreateActionsFromAnnotation ::
  "'e ActionsSuggestions \<Rightarrow> int \<Rightarrow> ActionSuggestionAnnotation \<Rightarrow> ActionsSuggestionsResponse
     \<Rightarrow> ActionsSuggestionsResponse" where
  "CreateActionsFromAnnotation a message_idx annotation suggestions =
     (case annotation_actions_spec (model a) of
        None \<Rightarrow> suggestions
      | Some spec \<Rightarrow>
          (case annotation_mapping spec of
             None \<Rightarrow> suggestions
           | Some mappings \<Rightarrow> create_actions_loop mappings annotation suggestions))"

text \<open>The first loop of \<^verbatim>\<open>SuggestActionsFromAnnotations\<close>, over the annotated spans.\<close>

fun action_annotations_loop ::
  "'e ActionsSuggestions \<Rightarrow> string \<Rightarrow> int \<Rightarrow> AnnotatedSpan list
     \<Rightarrow> ActionSuggestionAnnotation list" where
  "action_annotations_loop a back_text message_idx [] = []"
| "action_annotations_loop a back_text message_idx (annotation # rest) =
     (case classification annotation of
        [] \<Rightarrow> action_annotations_loop a back_text message_idx rest
      | classification_result # _ \<Rightarrow>
          \<lparr>message_index = message_idx,
           annotation_span = span annotation,
           entity = classification_result,
           name = collection classification_result,
           annotation_text =
             UTF8Substring a back_text (fst (span annotation)) (snd (span annotation))\<rparr>
          # action_annotations_loop a back_text message_idx rest)"

definition SuggestActionsFromAnnotations ::
  "'e ActionsSuggestions \<Rightarrow> Conversation \<Rightarrow> 'o ActionSuggestionOptions
     \<Rightarrow> (string \<Rightarrow> 'o \<Rightarrow> AnnotatedSpan list) option \<Rightarrow> ActionsSuggestionsResponse
     \<Rightarrow> ActionsSuggestionsResponse option" where
  "SuggestActionsFromAnnotations a conversation options annotator response =
     (if annotation_actions_spec (model a) = None \<or>
         annotation_mapping (the (annotation_actions_spec (model a))) = None \<or>
         the (annotation_mapping (the (annotation_actions_spec (model a)))) = []
      then Some response
      else
        (case messages conversation of
           [] \<Rightarrow> None
         | _ # _ \<Rightarrow>
            (let back = last (messages conversation);
                 annotations_back =
                   (case annotator of
                      Some annotate \<Rightarrow>
                        (if annotations back = []
                         then annotate (message_text back) (annotation_options options)
                         else annotations back)
                    | None \<Rightarrow> annotations back);
                 message_idx = int (length (messages conversation)) - 1;
                 action_annotations =
                   action_annotations_loop a (message_text back) message_idx annotations_back
             in Some
               (if deduplicate_annotations (the (annotation_actions_spec (model a)))
                then fold (\<lambda>annotation_id.
                       CreateActionsFromAnnotation a message_idx
                         (action_annotations ! annotation_id))
                     (DeduplicateAnnotations action_annotations) response
                else fold (CreateActionsFromAnnotation a message_idx)
                       action_annotations response))))"

section \<open>The rule pass\<close>

fun HasEntityData_loop :: "RuleActionSpec list \<Rightarrow> bool" where
  "HasEntityData_loop [] = False"
| "HasEntityData_loop (rule_action # rest) =
     (if spec_serialized_entity_data (action rule_action) \<noteq> None \<or>
         capturing_group rule_action \<noteq> None
      then True
      else HasEntityData_loop rest)"

definition HasEntityData :: "Rule \<Rightarrow> bool" where
  "HasEntityData r = HasEntityData_loop (rule_actions r)"

text \<open>
  What the body of the innermost block of \<^verbatim>\<open>SuggestActionsFromRules\<close> yields for one
  action of one match: a failed \<^verbatim>\<open>TC3_CHECK\<close>, the \<^verbatim>\<open>return false\<close> after a capturing
  group that could not be set, or the serialized entity data.
\<close>

datatype 'a checked = CheckFailed | ReturnFalse | Value 'a

fun capturing_group_loop ::
  "'e ActionsSuggestions \<Rightarrow> CapturingGroup list \<Rightarrow> RegexFind \<Rightarrow> 'e \<Rightarrow> 'e option" where
  "capturing_group_loop a [] matcher entity_data = Some entity_data"
| "capturing_group_loop a (g # rest) matcher entity_data =
     (case SetFieldFromCapturingGroup a (group_id g) (entity_field g) matcher entity_data of
        None \<Rightarrow> None
      | Some entity_data' \<Rightarrow> capturing_group_loop a rest matcher entity_data')"

definition rule_entity_data ::
  "'e ActionsSuggestions \<Rightarrow> bool \<Rightarrow> RuleActionSpec \<Rightarrow> RegexFind \<Rightarrow> string checked" where
  "rule_entity_data a has_entity_data rule_action matcher =
     (if has_entity_data
      then
        (case entity_data_builder a of
           None \<Rightarrow> CheckFailed
         | Some builder \<Rightarrow>
            (case NewRoot builder of
               None \<Rightarrow> CheckFailed
             | Some new_root \<Rightarrow>
                (let merged =
                       (case spec_serialized_entity_data (action rule_action) of
                          Some s \<Rightarrow> MergeFromSerializedFlatbuffer builder s new_root
                        | None \<Rightarrow> new_root)
                 in case (case capturing_group rule_action of
                            Some groups \<Rightarrow> capturing_group_loop a groups matcher merged
                          | None \<Rightarrow> Some merged) of
                      None \<Rightarrow> ReturnFalse
                    | Some entity_data \<Rightarrow> Value (Serialize builder entity_data))))
      else Value [])"

text \<open>The suggestion pushed for an action of a rule, given its serialized entity data.\<close>

definition rule_suggestion :: "ActionSuggestionSpec \<Rightarrow> string \<Rightarrow> ActionSuggestion" where
  "rule_suggestion spec entity_data =
     \<lparr>response_text = (case spec_response_text spec of Some t \<Rightarrow> t | None \<Rightarrow> []),
      suggestion_type = spec_type spec,
      suggestion_score = spec_score spec,
      suggestion_annotations = [],
      serialized_entity_data = entity_data\<rparr>"

text \<open>
  The three nested loops. A result \<open>Some (False, s)\<close> is the \<^verbatim>\<open>return false\<close>, with the
  suggestions as they stand then; \<open>None\<close> is the abort of a failed check.
\<close>

fun rule_actions_loop ::
  "'e ActionsSuggestions \<Rightarrow> bool \<Rightarrow> RuleActionSpec list \<Rightarrow> RegexFind
     \<Rightarrow> ActionsSuggestionsResponse \<Rightarrow> (bool \<times> ActionsSuggestionsResponse) option" where
  "rule_actions_loop a has_entity_data [] matcher suggestions = Some (True, suggestions)"
| "rule_actions_loop a has_entity_data (rule_action # rest) matcher suggestions =
     (case rule_entity_data a has_entity_data rule_action matcher of
        CheckFailed \<Rightarrow> None
      | ReturnFalse \<Rightarrow> Some (False, suggestions)
      | Value entity_data \<Rightarrow>
          rule_actions_loop a has_entity_data rest matcher
            (suggestions\<lparr>actions := actions suggestions @
               [rule_suggestion (action rule_action) entity_data]\<rparr>))"

fun find_loop ::
  "'e ActionsSuggestions \<Rightarrow> CompiledRule \<Rightarrow> bool \<Rightarrow> RegexFind list
     \<Rightarrow> ActionsSuggestionsResponse \<Rightarrow> (bool \<times> ActionsSuggestionsResponse) option" where
  "find_loop a r has_entity_data [] suggestions = Some (True, suggestions)"
| "find_loop a r has_entity_data (matcher # rest) suggestions =
     (if found matcher \<and> status matcher = kNoError
      then
        (case rule_actions_loop a has_entity_data (rule_actions (rule r)) matcher suggestions of
           None \<Rightarrow> None
         | Some (False, suggestions') \<Rightarrow> Some (False, suggestions')
         | Some (True, suggestions') \<Rightarrow> find_loop a r has_entity_data rest suggestions')
      else Some (True, suggestions))"

fun rules_loop ::
  "'e ActionsSuggestions \<Rightarrow> CompiledRule list \<Rightarrow> string \<Rightarrow> ActionsSuggestionsResponse
     \<Rightarrow> (bool \<times> ActionsSuggestionsResponse) option" where
  "rules_loop a [] message suggestions = Some (True, suggestions)"
| "rules_loop a (r # rest) message suggestions =
     (case find_loop a r (HasEntityData (rule r)) (pattern r message) suggestions of
        None \<Rightarrow> None
      | Some (False, suggestions') \<Rightarrow> Some (False, suggestions')
      | Some (True, suggestions') \<Rightarrow> rules_loop a rest message suggestions')"

definition SuggestActionsFromRules ::
  "'e ActionsSuggestions \<Rightarrow> Conversation \<Rightarrow> ActionsSuggestionsResponse
     \<Rightarrow> (bool \<times> ActionsSuggestionsResponse) option" where
  "SuggestActionsFromRules a conversation suggestions =
     (case messages conversation of
        [] \<Rightarrow> None
      | _ # _ \<Rightarrow>
          rules_loop a (rules a) (message_text (last (messages conversation))) suggestions)"

section \<open>The model pass\<close>

definition SetupModelInput ::
  "TensorflowLiteModelSpec \<Rightarrow> string list \<Rightarrow> int list \<Rightarrow> real list \<Rightarrow> int \<Rightarrow> ModelInput" where
  "SetupModelInput spec context user_ids time_diffs num_suggestions =
     \<lparr>context_input = (if input_context spec \<ge> 0 then Some context else None),
      context_length_input =
        (if input_context_length spec \<ge> 0 then Some (int (length context)) else None),
      user_id_input = (if input_user_id spec \<ge> 0 then Some user_ids else None),
      num_suggestions_input =
        (if input_num_suggestions spec \<ge> 0 then Some num_suggestions else None),
      time_diffs_input = (if input_time_diffs spec \<ge> 0 then Some time_diffs else None)\<rparr>"

text \<open>Reading the triggering score; \<open>None\<close> is the early \<^verbatim>\<open>return\<close>.\<close>

definition read_triggering_score ::
  "'e ActionsSuggestions \<Rightarrow> Interpreter \<Rightarrow> 'o ActionSuggestionOptions
     \<Rightarrow> ActionsSuggestionsResponse \<Rightarrow> ActionsSuggestionsResponse option" where
  "read_triggering_score a interpreter options response =
     (if output_triggering_score (tflite_model_spec (model a)) \<ge> 0
      then
        (let triggering =
               float_output interpreter (output_triggering_score (tflite_model_spec (model a)))
         in if \<not> is_valid triggering \<or> tensor_size triggering = 0 then None
            else Some (response
              \<lparr>triggering_score := data triggering 0,
               output_filtered_min_triggering_score :=
                 (\<not> ignore_min_replies_triggering_threshold options \<and>
                  data triggering 0 <
                    min_smart_reply_triggering_score (preconditions (model a)))\<rparr>))
      else Some response)"

text \<open>Reading the sensitivity score; \<open>None\<close> is the early \<^verbatim>\<open>return\<close>.\<close>

definition read_sensitive_topic_score ::
  "'e ActionsSuggestions \<Rightarrow> Interpreter \<Rightarrow> ActionsSuggestionsResponse
     \<Rightarrow> ActionsSuggestionsResponse option" where
  "read_sensitive_topic_score a interpreter response =
     (if output_sensitive_topic_score (tflite_model_spec (model a)) \<ge> 0
      then
        (let sensitive_topic =
               float_output interpreter
                 (output_sensitive_topic_score (tflite_model_spec (model a)))
         in if \<not> is_valid sensitive_topic \<or> dim sensitive_topic 0 \<noteq> 1 then None
            else Some (response
              \<lparr>sensitivity_score := data sensitive_topic 0,
               output_filtered_sensitivity :=
                 (data sensitive_topic 0 >
                    max_sensitive_topic_score (preconditions (model a)))\<rparr>))
      else Some response)"

text \<open>The loop over the replies, \<open>i\<close> being the index of the head of the list.\<close>

fun replies_loop ::
  "'e ActionsSuggestions \<Rightarrow> TensorView \<Rightarrow> nat \<Rightarrow> string list \<Rightarrow> ActionsSuggestionsResponse
     \<Rightarrow> ActionsSuggestionsResponse" where
  "replies_loop a scores i [] response = response"
| "replies_loop a scores i (reply # rest) response =
     (if length reply = 0 then replies_loop a scores (Suc i) rest response
      else replies_loop a scores (Suc i) rest
        (response\<lparr>actions := actions response @
           [\<lparr>response_text = reply,
             suggestion_type = smart_reply_action_type (model a),
             suggestion_score = data scores i,
             suggestion_annotations = [],
             serialized_entity_data = []\<rparr>]\<rparr>))"

text \<open>The loop over the action classes, \<open>i\<close> being the index of the head of the list.\<close>

fun action_scores_loop ::
  "TensorView \<Rightarrow> nat \<Rightarrow> ActionTypeOptions list \<Rightarrow> ActionsSuggestionsResponse
     \<Rightarrow> ActionsSuggestionsResponse" where
  "action_scores_loop actions_scores i [] response = response"
| "action_scores_loop actions_scores i (t # rest) response =
     (if \<not> enabled t then action_scores_loop actions_scores (Suc i) rest response
      else if data actions_scores i < min_triggering_score t
      then action_scores_loop actions_scores (Suc i) rest response
      else action_scores_loop actions_scores (Suc i) rest
        (response\<lparr>actions := actions response @
           [\<lparr>response_text = [],
             suggestion_type = action_name t,
             suggestion_score = data actions_scores i,
             suggestion_annotations = [],
             serialized_entity_data = []\<rparr>]\<rparr>))"

definition read_smart_replies ::
  "'e ActionsSuggestions \<Rightarrow> Interpreter \<Rightarrow> ActionsSuggestionsResponse
     \<Rightarrow> ActionsSuggestionsResponse" where
  "read_smart_replies a interpreter response =
     (if \<not> output_filtered_min_triggering_score response \<and>
         output_replies (tflite_model_spec (model a)) \<ge> 0
      then replies_loop a
             (float_output interpreter (output_replies_scores (tflite_model_spec (model a))))
             0 (string_output interpreter (output_replies (tflite_model_spec (model a))))
             response
      else response)"

definition read_actions_suggestions ::
  "'e ActionsSuggestions \<Rightarrow> Interpreter \<Rightarrow> ActionsSuggestionsResponse
     \<Rightarrow> ActionsSuggestionsResponse" where
  "read_actions_suggestions a interpreter response =
     (if output_actions_scores (tflite_model_spec (model a)) \<ge> 0
      then action_scores_loop
             (float_output interpreter (output_actions_scores (tflite_model_spec (model a))))
             0 (action_type (model a)) response
      else response)"

definition ReadModelOutput ::
  "'e ActionsSuggestions \<Rightarrow> Interpreter \<Rightarrow> 'o ActionSuggestionOptions
     \<Rightarrow> ActionsSuggestionsResponse \<Rightarrow> ActionsSuggestionsResponse" where
  "ReadModelOutput a interpreter options response =
     (case read_triggering_score a interpreter options response of
        None \<Rightarrow> response
      | Some response1 \<Rightarrow>
         (case read_sensitive_topic_score a interpreter response1 of
            None \<Rightarrow> response1
          | Some response2 \<Rightarrow>
             (if output_filtered_sensitivity response2 then response2
              else read_actions_suggestions a interpreter
                     (read_smart_replies a interpreter response2))))"

text \<open>
  The time differences of the gathered messages, in seconds: the difference of the times
  is divided by \<^verbatim>\<open>second_in_ms\<close>, the float 1000.
\<close>

fun time_diffs_loop ::
  "'e ActionsSuggestions \<Rightarrow> ConversationMessage list \<Rightarrow> int \<Rightarrow> real list" where
  "time_diffs_loop a [] last_message_reference_time_ms_utc = []"
| "time_diffs_loop a (message # rest) last_message_reference_time_ms_utc =
     (if reference_time_ms_utc message \<noteq> 0 \<and> last_message_reference_time_ms_utc \<noteq> 0
      then max 0 (float_quotient a
             (reference_time_ms_utc message - last_message_reference_time_ms_utc) 1000)
      else 0)
     # time_diffs_loop a rest
         (if reference_time_ms_utc message \<noteq> 0 then reference_time_ms_utc message
          else last_message_reference_time_ms_utc)"

text \<open>The last \<open>num_messages\<close> messages, which the loops from \<^verbatim>\<open>size() - num_messages\<close> visit.\<close>

definition last_messages :: "Conversation \<Rightarrow> nat \<Rightarrow> ConversationMessage list" where
  "last_messages conversation num_messages =
     drop (length (messages conversation) - num_messages) (messages conversation)"

definition SuggestActionsFromModel ::
  "'e ActionsSuggestions \<Rightarrow> Conversation \<Rightarrow> nat \<Rightarrow> 'o ActionSuggestionOptions
     \<Rightarrow> ActionsSuggestionsResponse \<Rightarrow> ActionsSuggestionsResponse option" where
  "SuggestActionsFromModel a conversation num_messages options response =
     (if \<not> num_messages \<le> length (messages conversation) then None
      else
        (case model_executor a of
           None \<Rightarrow> Some response
         | Some executor \<Rightarrow>
            (if \<not> CreateInterpreter executor then Some response
             else if \<not> AllocateTensors executor then Some response
             else
               (case Invoke executor
                       (SetupModelInput (tflite_model_spec (model a))
                          (map message_text (last_messages conversation num_messages))
                          (map user_id (last_messages conversation num_messages))
                          (time_diffs_loop a (last_messages conversation num_messages) 0)
                          (num_smart_replies (model a))) of
                  None \<Rightarrow> Some response
                | Some interpreter \<Rightarrow>
                    Some (ReadModelOutput a interpreter options response)))))"

section \<open>The gating pipeline\<close>

text \<open>
  \<^verbatim>\<open>IsLowConfidenceInput\<close> visits \<^verbatim>\<open>messages[size() - i]\<close> for \<open>i\<close> from 1 to
  \<open>num_messages\<close>: the last messages, latest first. Its only caller passes
  \<open>num_messages \<le> size()\<close>.
\<close>

fun low_confidence_rules_loop :: "CompiledRule list \<Rightarrow> string \<Rightarrow> bool" where
  "low_confidence_rules_loop [] message = False"
| "low_confidence_rules_loop (r # rest) message =
     (case pattern r message of
        [] \<Rightarrow> low_confidence_rules_loop rest message
      | matcher # _ \<Rightarrow>
          (if found matcher \<and> status matcher = kNoError then True
           else low_confidence_rules_loop rest message))"

fun low_confidence_messages_loop ::
  "'e ActionsSuggestions \<Rightarrow> ConversationMessage list \<Rightarrow> bool" where
  "low_confidence_messages_loop a [] = False"
| "low_confidence_messages_loop a (message # rest) =
     (if low_confidence_rules_loop (low_confidence_rules a) (message_text message) then True
      else low_confidence_messages_loop a rest)"

definition IsLowConfidenceInput :: "'e ActionsSuggestions \<Rightarrow> Conversation \<Rightarrow> nat \<Rightarrow> bool" where
  "IsLowConfidenceInput a conversation num_messages =
     low_confidence_messages_loop a (take num_messages (rev (messages conversation)))"

text \<open>
  The loop of \<^verbatim>\<open>GatherActionsSuggestions\<close> that adds up the text lengths and counts the
  messages with a supported locale; the state is
  \<open>(input_text_length, num_matching_locales)\<close>.
\<close>

definition input_step ::
  "'e ActionsSuggestions \<Rightarrow> ConversationMessage \<Rightarrow> int \<times> int \<Rightarrow> int \<times> int" where
  "input_step a message st =
     (case st of (input_text_length, num_matching_locales) \<Rightarrow>
        (case ParseLocales a (locales message) of
           None \<Rightarrow> (input_text_length + int (length (message_text message)),
                     num_matching_locales)
         | Some message_locales \<Rightarrow>
             (input_text_length + int (length (message_text message)),
              (if IsAnyLocaleSupportedByModel a message_locales
               then num_matching_locales + 1 else num_matching_locales))))"

definition input_text_length :: "'e ActionsSuggestions \<Rightarrow> Conversation \<Rightarrow> nat \<Rightarrow> int" where
  "input_text_length a conversation num_messages =
     fst (fold (input_step a) (last_messages conversation num_messages) (0, 0))"

definition num_matching_locales :: "'e ActionsSuggestions \<Rightarrow> Conversation \<Rightarrow> nat \<Rightarrow> int" where
  "num_matching_locales a conversation num_messages =
     snd (fold (input_step a) (last_messages conversation num_messages) (0, 0))"

text \<open>The test of the first bail-out: too few or too much input.\<close>

definition too_much_or_not_enough_input :: "TriggeringPreconditions \<Rightarrow> int \<Rightarrow> bool" where
  "too_much_or_not_enough_input p len \<longleftrightarrow>
     len < min_input_length p \<or> (max_input_length p \<ge> 0 \<and> len > max_input_length p)"

text \<open>
  \<^verbatim>\<open>GatherActionsSuggestions\<close> from the locale bail-out on, for the response as the
  annotation pass has left it.
\<close>

definition gather_after_input_length ::
  "'e ActionsSuggestions \<Rightarrow> Conversation \<Rightarrow> 'o ActionSuggestionOptions \<Rightarrow> nat
     \<Rightarrow> ActionsSuggestionsResponse \<Rightarrow> (bool \<times> ActionsSuggestionsResponse) option" where
  "gather_after_input_length a conversation options num_messages response =
     (if float_quotient a (num_matching_locales a conversation num_messages) (int num_messages)
           < min_locale_match_fraction (preconditions (model a))
      then Some (True, response\<lparr>output_filtered_locale_mismatch := True\<rparr>)
      else if IsLowConfidenceInput a conversation num_messages
      then Some (True, response\<lparr>output_filtered_low_confidence := True\<rparr>)
      else
        (case SuggestActionsFromModel a conversation num_messages options response of
           None \<Rightarrow> None
         | Some response' \<Rightarrow>
            (if suppress_on_sensitive_topic (preconditions (model a)) \<and>
                output_filtered_sensitivity response'
             then Some (True, response')
             else
               (case SuggestActionsFromRules a conversation response' of
                  None \<Rightarrow> None
                | Some (False, response'') \<Rightarrow> Some (False, response'')
                | Some (True, response'') \<Rightarrow> Some (True, response'')))))"

text \<open>The number of messages the pipeline looks at.\<close>

definition num_messages_of :: "'e ActionsSuggestions \<Rightarrow> Conversation \<Rightarrow> int" where
  "num_messages_of a conversation =
     (let conversation_history_length = int (length (messages conversation));
          max_conversation_history_length = max_conversation_history_length (model a)
      in if max_conversation_history_length < 0 \<or>
            conversation_history_length < max_conversation_history_length
         then conversation_history_length
         else max_conversation_history_length)"

definition GatherActionsSuggestions ::
  "'e ActionsSuggestions \<Rightarrow> Conversation \<Rightarrow> (string \<Rightarrow> 'o \<Rightarrow> AnnotatedSpan list) option
     \<Rightarrow> 'o ActionSuggestionOptions \<Rightarrow> ActionsSuggestionsResponse
     \<Rightarrow> (bool \<times> ActionsSuggestionsResponse) option" where
  "GatherActionsSuggestions a conversation annotator options response =
     (if messages conversation = [] then Some (True, response)
      else if num_messages_of a conversation \<le> 0 then Some (False, response)
      else
        (case SuggestActionsFromAnnotations a conversation options annotator response of
           None \<Rightarrow> None
         | Some response' \<Rightarrow>
            (if too_much_or_not_enough_input (preconditions (model a))
                  (input_text_length a conversation (nat (num_messages_of a conversation)))
             then Some (True, response')
             else gather_after_input_length a conversation options
                    (nat (num_messages_of a conversation)) response')))"

text \<open>
  Modelled from the spec: the declaration of \<^verbatim>\<open>ActionsSuggestionsResponse\<close> is not in the
  sources. A default-constructed response has no actions and no filter flag set (the
  flags say why a list is empty); its two scores are those of the engine record.
\<close>

definition new_response :: "'e ActionsSuggestions \<Rightarrow> ActionsSuggestionsResponse" where
  "new_response a =
     \<lparr>sensitivity_score = fst (initial_scores a),
      triggering_score = snd (initial_scores a),
      output_filtered_sensitivity = False,
      output_filtered_min_triggering_score = False,
      output_filtered_low_confidence = False,
      output_filtered_locale_mismatch = False,
      actions = []\<rparr>"

definition SuggestActions ::
  "'e ActionsSuggestions \<Rightarrow> Conversation \<Rightarrow> (string \<Rightarrow> 'o \<Rightarrow> AnnotatedSpan list) option
     \<Rightarrow> 'o ActionSuggestionOptions \<Rightarrow> ActionsSuggestionsResponse option" where
  "SuggestActions a conversation annotator options =
     (case GatherActionsSuggestions a conversation annotator options (new_response a) of
        None \<Rightarrow> None
      | Some (False, response) \<Rightarrow> Some (response\<lparr>actions := []\<rparr>)
      | Some (True, response) \<Rightarrow>
          (case RankActions a response of
             (False, response') \<Rightarrow> Some (response'\<lparr>actions := []\<rparr>)
           | (True, response') \<Rightarrow> Some response'))"

section \<open>The double-array trie\<close>

text \<open>
  The node accessors \<^verbatim>\<open>offset\<close>, \<^verbatim>\<open>label\<close>, \<^verbatim>\<open>has_leaf\<close> and \<^verbatim>\<open>value\<close> are declared
  outside the sources: they are fields of the trie, functions of the position. The
  position is an \<^verbatim>\<open>unsigned int\<close>.
\<close>

record DoubleArrayTrie =
  nodes_length :: nat
  offset :: "32 word \<Rightarrow> 32 word"
  label :: "32 word \<Rightarrow> 32 word"
  has_leaf :: "32 word \<Rightarrow> bool"
  value_of :: "32 word \<Rightarrow> int"

record TrieMatch =
  match_id :: int
  match_length :: int

text \<open>
  The \<^verbatim>\<open>input[i]\<close> of the comparison with the label, converted to the label's type:
  whether \<^verbatim>\<open>char\<close> is signed depends on the platform.
\<close>

definition char_as_uint32 :: "bool \<Rightarrow> 8 word \<Rightarrow> 32 word" where
  "char_as_uint32 char_is_signed c = (if char_is_signed then scast c else ucast c)"

text \<open>
  The loop of \<^verbatim>\<open>GatherPrefixMatches\<close> over the bytes from index \<open>i\<close> on. The tests
  \<^verbatim>\<open>pos < 0\<close> of the source are false for an unsigned position and left out.
\<close>

fun prefix_loop ::
  "DoubleArrayTrie \<Rightarrow> bool \<Rightarrow> (TrieMatch \<Rightarrow> 's \<Rightarrow> 's) \<Rightarrow> 8 word list \<Rightarrow> nat \<Rightarrow> 32 word
     \<Rightarrow> 's \<Rightarrow> bool \<times> 's" where
  "prefix_loop t char_is_signed update_fn [] i pos st = (True, st)"
| "prefix_loop t char_is_signed update_fn (c # rest) i pos st =
     (if c = 0 then (True, st)
      else if unat (pos XOR ucast c) \<ge> nodes_length t then (True, st)
      else if label t (pos XOR ucast c) \<noteq> char_as_uint32 char_is_signed c then (True, st)
      else if unat ((pos XOR ucast c) XOR offset t (pos XOR ucast c)) > nodes_length t
      then (False, st)
      else prefix_loop t char_is_signed update_fn rest (Suc i)
             ((pos XOR ucast c) XOR offset t (pos XOR ucast c))
             (if has_leaf t (pos XOR ucast c)
              then update_fn
                     \<lparr>match_id = value_of t ((pos XOR ucast c) XOR offset t (pos XOR ucast c)),
                      match_length = int i + 1\<rparr> st
              else st))"

definition GatherPrefixMatches ::
  "DoubleArrayTrie \<Rightarrow> bool \<Rightarrow> 8 word list \<Rightarrow> (TrieMatch \<Rightarrow> 's \<Rightarrow> 's) \<Rightarrow> 's \<Rightarrow> bool \<times> 's" where
  "GatherPrefixMatches t char_is_signed input update_fn st =
     (if nodes_length t = 0 then (True, st)
      else prefix_loop t char_is_signed update_fn input 0 (offset t 0) st)"

definition FindAllPrefixMatches ::
  "DoubleArrayTrie \<Rightarrow> bool \<Rightarrow> 8 word list \<Rightarrow> TrieMatch list \<Rightarrow> bool \<times> TrieMatch list" where
  "FindAllPrefixMatches t char_is_signed input matches =
     GatherPrefixMatches t char_is_signed input (\<lambda>m ms. ms @ [m]) matches"

section \<open>The reflective flatbuffer\<close>

text \<open>
  A \<^verbatim>\<open>ReflectiveFlatbuffer\<close> over field descriptors \<open>'f\<close> and variants \<open>'v\<close>. Its schema
  and type decide \<^verbatim>\<open>GetFieldOrNull\<close> and \<^verbatim>\<open>IsMatchingType\<close>, which are defined outside the
  sources and are fields here. A value handed to \<^verbatim>\<open>Set\<close> is the variant built from it,
  which carries the C++ type of the value.
\<close>

record ('f, 'v, 'c) ReflectiveFlatbuffer =
  GetFieldOrNull :: "string \<Rightarrow> 'f option"
  IsMatchingType :: "'f \<Rightarrow> 'v \<Rightarrow> bool"
  cached_fields :: "'f \<Rightarrow> 'v option"
  children :: 'c

text \<open>\<^verbatim>\<open>Set(const reflection::Field* field, T value)\<close>; the field may be null.\<close>

definition Set_field ::
  "('f, 'v, 'c) ReflectiveFlatbuffer \<Rightarrow> 'f option \<Rightarrow> 'v
     \<Rightarrow> bool \<times> ('f, 'v, 'c) ReflectiveFlatbuffer" where
  "Set_field fb field v =
     (case field of
        None \<Rightarrow> (False, fb)
      | Some f \<Rightarrow>
          (if \<not> IsMatchingType fb f v then (False, fb)
           else (True, fb\<lparr>cached_fields := (cached_fields fb)(f \<mapsto> v)\<rparr>)))"

text \<open>\<^verbatim>\<open>Set(StringPiece field_name, T value)\<close>.\<close>

definition Set_name ::
  "('f, 'v, 'c) ReflectiveFlatbuffer \<Rightarrow> string \<Rightarrow> 'v
     \<Rightarrow> bool \<times> ('f, 'v, 'c) ReflectiveFlatbuffer" where
  "Set_name fb field_name v =
     (case GetFieldOrNull fb field_name of
        Some f \<Rightarrow> Set_field fb (Some f) v
      | None \<Rightarrow> (False, fb))"

section \<open>Statements of the specification\<close>

text \<open>
  The per-field condition of the specification for a model-declared locale and a
  candidate: the model field is empty, or the wildcard, or equal to the candidate field,
  or (script and region only) the candidate field is empty.
\<close>

definition locale_matches_spec :: "Locale \<Rightarrow> Locale \<Rightarrow> bool" where
  "locale_matches_spec model_locale candidate \<longleftrightarrow>
     (Language model_locale = [] \<or> Language model_locale = ''*'' \<or>
      Language model_locale = Language candidate) \<and>
     (Script model_locale = [] \<or> Script model_locale = ''*'' \<or>
      Script model_locale = Script candidate \<or> Script candidate = []) \<and>
     (Region model_locale = [] \<or> Region model_locale = ''*'' \<or>
      Region model_locale = Region candidate \<or> Region candidate = [])"

text \<open>
  The relaxations of the matcher. On the model side any component may become the wildcard
  or empty; on the candidate side the script and the region may become empty. Validity
  and the unknown mark are kept.
\<close>

definition relaxed_model_locale :: "Locale \<Rightarrow> Locale \<Rightarrow> bool" where
  "relaxed_model_locale m m' \<longleftrightarrow>
     IsValid m' = IsValid m \<and> IsUnknown m' = IsUnknown m \<and>
     (Language m' = Language m \<or> Language m' = ''*'' \<or> Language m' = []) \<and>
     (Script m' = Script m \<or> Script m' = ''*'' \<or> Script m' = []) \<and>
     (Region m' = Region m \<or> Region m' = ''*'' \<or> Region m' = [])"

definition relaxed_candidate_locale :: "Locale \<Rightarrow> Locale \<Rightarrow> bool" where
  "relaxed_candidate_locale c c' \<longleftrightarrow>
     IsValid c' = IsValid c \<and> IsUnknown c' = IsUnknown c \<and>
     Language c' = Language c \<and>
     (Script c' = Script c \<or> Script c' = []) \<and>
     (Region c' = Region c \<or> Region c' = [])"

section \<open>Example inputs\<close>

definition example_locale :: "string \<Rightarrow> string \<Rightarrow> string \<Rightarrow> Locale" where
  "example_locale l s r =
     \<lparr>Language = l, Script = s, Region = r, IsValid = True, IsUnknown = False\<rparr>"

definition invalid_locale :: Locale where
  "invalid_locale =
     \<lparr>Language = [], Script = [], Region = [], IsValid = False, IsUnknown = False\<rparr>"

definition example_preconditions :: TriggeringPreconditions where
  "example_preconditions =
     \<lparr>min_smart_reply_triggering_score = 0,
      max_sensitive_topic_score = 1,
      suppress_on_sensitive_topic = True,
      min_input_length = 0,
      max_input_length = - 1,
      min_locale_match_fraction = 0,
      handle_missing_locale_as_supported = True,
      handle_unknown_locale_as_supported = True,
      suppress_on_low_confidence_input = False\<rparr>"

definition example_spec :: TensorflowLiteModelSpec where
  "example_spec =
     \<lparr>input_user_id = - 1, input_context = - 1, input_context_length = - 1,
      input_time_diffs = - 1, input_num_suggestions = - 1, output_replies = - 1,
      output_replies_scores = - 1, output_sensitive_topic_score = - 1,
      output_triggering_score = - 1, output_actions_scores = - 1\<rparr>"

definition example_model :: ActionsModel where
  "example_model =
     \<lparr>preconditions = example_preconditions,
      tflite_model_spec = example_spec,
      max_conversation_history_length = - 1,
      num_smart_replies = 3,
      smart_reply_action_type = ''text_reply'',
      action_type = [],
      annotation_actions_spec = None\<rparr>"

text \<open>
  An engine without rules, model executor or entity data; its ranker keeps every
  response as it is, a captured group is appended to the entity data (a string), and its
  quotients are exact.
\<close>

definition example_engine :: "string ActionsSuggestions" where
  "example_engine =
     \<lparr>model = example_model,
      model_locales = [],
      rules = [],
      low_confidence_rules = [],
      model_executor = None,
      entity_data_builder = None,
      RankActions = (\<lambda>response. (True, response)),
      ParseLocales = (\<lambda>s. Some []),
      UTF8Substring = (\<lambda>s first second. take (nat (second - first)) (drop (nat first) s)),
      SetFieldFromCapturingGroup =
        (\<lambda>gid field matcher entity_data.
           case group matcher gid of None \<Rightarrow> None | Some g \<Rightarrow> Some (entity_data @ g)),
      initial_scores = (- 1, - 1),
      float_quotient = (\<lambda>x y. real_of_int x / real_of_int y)\<rparr>"

section \<open>Invariants, further statements and examples\<close>

text \<open>
  The invariant of the loop of \<^verbatim>\<open>DeduplicateAnnotations\<close> after the indices below
  \<open>n\<close>: the map has one entry for each key seen, and the entry of a key is the first
  index of highest score among the indices of that key.
\<close>

definition dedup_inv ::
  "ActionSuggestionAnnotation list \<Rightarrow> nat \<Rightarrow> ((string \<times> string) \<times> nat) list \<Rightarrow> bool" where
  "dedup_inv anns n m \<longleftrightarrow>
     distinct (map fst m) \<and>
     (\<forall>k j. map_of m k = Some j \<longrightarrow> j < n \<and> dedup_key anns j = k \<and>
        (\<forall>i<n. dedup_key anns i = k \<longrightarrow>
           dedup_score anns i \<le> dedup_score anns j \<and>
           (dedup_score anns i = dedup_score anns j \<longrightarrow> j \<le> i))) \<and>
     (\<forall>i<n. map_of m (dedup_key anns i) \<noteq> None)"

text \<open>An annotation of a text \<open>t\<close> with collection \<open>c\<close> and score \<open>s\<close>.\<close>

definition example_annotation :: "string \<Rightarrow> string \<Rightarrow> real \<Rightarrow> ActionSuggestionAnnotation" where
  "example_annotation c t s =
     \<lparr>message_index = 0, annotation_span = (0, int (length t)),
      entity = \<lparr>collection = c, score = s\<rparr>, name = c, annotation_text = t\<rparr>"

text \<open>Five annotations of three keys; the third and the fourth tie.\<close>

definition example_annotations :: "ActionSuggestionAnnotation list" where
  "example_annotations =
     [example_annotation ''date'' ''tomorrow'' 0.4,
      example_annotation ''phone'' ''555'' 0.9,
      example_annotation ''date'' ''tomorrow'' 0.8,
      example_annotation ''date'' ''tomorrow'' 0.8,
      example_annotation ''date'' ''today'' 0.5]"

text \<open>
  A trie of two nodes whose node 1, reached from the root by the byte 1, is flagged as a
  leaf and has the given offset to its children.
\<close>

definition corrupt_trie :: "32 word \<Rightarrow> DoubleArrayTrie" where
  "corrupt_trie child_offset =
     \<lparr>nodes_length = 2,
      offset = (\<lambda>pos. if pos = 1 then child_offset else 0),
      label = (\<lambda>pos. if pos = 1 then 1 else 0),
      has_leaf = (\<lambda>pos. pos = 1),
      value_of = (\<lambda>pos. if pos = 2 then 7 else 0)\<rparr>"

text \<open>
  The typing invariant of a reflective flatbuffer: every cached value matches the type of
  its field.
\<close>

definition well_typed :: "('f, 'v, 'c) ReflectiveFlatbuffer \<Rightarrow> bool" where
  "well_typed fb \<longleftrightarrow> (\<forall>f v. cached_fields fb f = Some v \<longrightarrow> IsMatchingType fb f v)"

text \<open>A call of one of the two \<^verbatim>\<open>Set\<close> methods, and a sequence of calls.\<close>

datatype ('f, 'v) set_call = SetByName string 'v | SetByField "'f option" 'v

fun apply_call ::
  "('f, 'v) set_call \<Rightarrow> ('f, 'v, 'c) ReflectiveFlatbuffer \<Rightarrow> ('f, 'v, 'c) ReflectiveFlatbuffer" where
  "apply_call (SetByName field_name v) fb = snd (Set_name fb field_name v)"
| "apply_call (SetByField field v) fb = snd (Set_field fb field v)"

text \<open>
  A flatbuffer with an integer field \<open>count\<close> and a string field \<open>label\<close>, nothing set;
  a variant is an integer or a string.
\<close>

definition example_flatbuffer :: "(string, int + string, unit) ReflectiveFlatbuffer" where
  "example_flatbuffer =
     \<lparr>GetFieldOrNull = (\<lambda>n. if n = ''count'' \<or> n = ''label'' then Some n else None),
      IsMatchingType = (\<lambda>f v. case v of Inl _ \<Rightarrow> f = ''count'' | Inr _ \<Rightarrow> f = ''label''),
      cached_fields = Map.empty,
      children = ()\<rparr>"

text \<open>The second response is the first with further actions appended, all else equal.\<close>

definition extends_actions :: "ActionsSuggestionsResponse \<Rightarrow> ActionsSuggestionsResponse \<Rightarrow> bool" where
  "extends_actions r r' \<longleftrightarrow> (\<exists>xs. r' = r\<lparr>actions := actions r @ xs\<rparr>)"

text \<open>
  The input-length condition in the words of the specification: the length is outside
  \<open>[min_input_length, max_input_length]\<close>, a maximum of 0 or less meaning no upper bound.
\<close>

definition outside_input_length_range_spec :: "TriggeringPreconditions \<Rightarrow> int \<Rightarrow> bool" where
  "outside_input_length_range_spec p len \<longleftrightarrow>
     len < min_input_length p \<or> (max_input_length p > 0 \<and> len > max_input_length p)"

text \<open>
  What the rule pass is to produce, stated without the loops of the code. The matches of
  a rule are the results of \<^verbatim>\<open>Find\<close> up to the first that is false or has an error
  status.
\<close>

definition rule_matches :: "CompiledRule \<Rightarrow> string \<Rightarrow> RegexFind list" where
  "rule_matches r message =
     takeWhile (\<lambda>matcher. found matcher \<and> status matcher = kNoError) (pattern r message)"

text \<open>
  A rule declares entity data when one of its actions has static entity data or capturing
  groups.
\<close>

definition declares_entity_data :: "Rule \<Rightarrow> bool" where
  "declares_entity_data r \<longleftrightarrow>
     (\<exists>rule_action\<in>set (rule_actions r).
        spec_serialized_entity_data (action rule_action) \<noteq> None \<or>
        capturing_group rule_action \<noteq> None)"

text \<open>
  The capturing groups of an action are set one after the other on the entity data; the
  first that cannot be set leaves none.
\<close>

definition set_captured_fields ::
  "'e ActionsSuggestions \<Rightarrow> CapturingGroup list \<Rightarrow> RegexFind \<Rightarrow> 'e \<Rightarrow> 'e option" where
  "set_captured_fields a groups matcher entity_data =
     fold (\<lambda>g e. Option.bind e
             (SetFieldFromCapturingGroup a (group_id g) (entity_field g) matcher))
       groups (Some entity_data)"

text \<open>
  The payload of an action for a match: the empty string when the rule declares no entity
  data; otherwise the serialization of a new root record, merged with the static entity
  data of the action if it has some, on which the capturing groups of the action are set.
  There is no payload when the builder or the root record is missing or when a capturing
  group cannot be set.
\<close>

definition entity_payload_spec ::
  "'e ActionsSuggestions \<Rightarrow> Rule \<Rightarrow> RuleActionSpec \<Rightarrow> RegexFind \<Rightarrow> string option" where
  "entity_payload_spec a r rule_action matcher =
     (if \<not> declares_entity_data r then Some []
      else
        (case entity_data_builder a of
           None \<Rightarrow> None
         | Some builder \<Rightarrow>
            (case NewRoot builder of
               None \<Rightarrow> None
             | Some new_root \<Rightarrow>
                 map_option (Serialize builder)
                   (set_captured_fields a
                      (case capturing_group rule_action of None \<Rightarrow> [] | Some groups \<Rightarrow> groups)
                      matcher
                      (case spec_serialized_entity_data (action rule_action) of
                         None \<Rightarrow> new_root
                       | Some static \<Rightarrow>
                           MergeFromSerializedFlatbuffer builder static new_root)))))"

text \<open>
  The suggestion of an action with a payload; the suggestions of a match, one per action
  of the rule; and those of the pass, for all matches of all rules, in order.
\<close>

definition suggestion_spec :: "ActionSuggestionSpec \<Rightarrow> string \<Rightarrow> ActionSuggestion" where
  "suggestion_spec spec payload =
     \<lparr>response_text = (case spec_response_text spec of None \<Rightarrow> [] | Some t \<Rightarrow> t),
      suggestion_type = spec_type spec,
      suggestion_score = spec_score spec,
      suggestion_annotations = [],
      serialized_entity_data = payload\<rparr>"

definition expected_match_suggestions ::
  "'e ActionsSuggestions \<Rightarrow> CompiledRule \<Rightarrow> RegexFind \<Rightarrow> ActionSuggestion list" where
  "expected_match_suggestions a r matcher =
     map (\<lambda>rule_action.
            suggestion_spec (action rule_action)
              (the (entity_payload_spec a (rule r) rule_action matcher)))
       (rule_actions (rule r))"

definition expected_rule_suggestions ::
  "'e ActionsSuggestions \<Rightarrow> CompiledRule list \<Rightarrow> string \<Rightarrow> ActionSuggestion list" where
  "expected_rule_suggestions a rs message =
     concat (map (\<lambda>r. concat (map (expected_match_suggestions a r) (rule_matches r message))) rs)"

text \<open>Every action of every match of every rule has a payload.\<close>

definition payloads_defined :: "'e ActionsSuggestions \<Rightarrow> CompiledRule list \<Rightarrow> string \<Rightarrow> bool" where
  "payloads_defined a rs message \<longleftrightarrow>
     (\<forall>r\<in>set rs. \<forall>matcher\<in>set (rule_matches r message).
        \<forall>rule_action\<in>set (rule_actions (rule r)).
          entity_payload_spec a (rule r) rule_action matcher \<noteq> None)"

text \<open>
  A capturing group of the action cannot be set for the match, the builder and its root
  record being there.
\<close>

definition extraction_fails ::
  "'e ActionsSuggestions \<Rightarrow> RuleActionSpec \<Rightarrow> RegexFind \<Rightarrow> bool" where
  "extraction_fails a rule_action matcher \<longleftrightarrow>
     (case entity_data_builder a of
        None \<Rightarrow> False
      | Some builder \<Rightarrow>
         (case NewRoot builder of
            None \<Rightarrow> False
          | Some new_root \<Rightarrow>
             (case capturing_group rule_action of
                None \<Rightarrow> False
              | Some groups \<Rightarrow>
                  set_captured_fields a groups matcher
                    (case spec_serialized_entity_data (action rule_action) of
                       None \<Rightarrow> new_root
                     | Some static \<Rightarrow>
                         MergeFromSerializedFlatbuffer builder static new_root) = None)))"

text \<open>Messages, conversations, options, rules and matcher results for the examples.\<close>

definition example_message :: "string \<Rightarrow> ConversationMessage" where
  "example_message t =
     \<lparr>user_id = 1, message_text = t, reference_time_ms_utc = 0, annotations = [],
      locales = ''en''\<rparr>"

definition example_options :: "unit ActionSuggestionOptions" where
  "example_options = \<lparr>annotation_options = (), ignore_min_replies_triggering_threshold = False\<rparr>"

definition example_action :: "string \<Rightarrow> ActionSuggestionSpec" where
  "example_action t =
     \<lparr>spec_type = t, spec_response_text = None, spec_serialized_entity_data = None,
      spec_score = 0.9\<rparr>"

definition example_rule :: "string \<Rightarrow> RegexFind list \<Rightarrow> CompiledRule" where
  "example_rule t finds =
     \<lparr>rule = \<lparr>rule_actions = [\<lparr>action = example_action t, capturing_group = None\<rparr>]\<rparr>,
      pattern = (\<lambda>message. finds)\<rparr>"

definition example_find :: "bool \<Rightarrow> int \<Rightarrow> RegexFind" where
  "example_find f s = \<lparr>found = f, status = s, group = (\<lambda>gid. None)\<rparr>"

definition example_conversation :: "string list \<Rightarrow> Conversation" where
  "example_conversation ts = \<lparr>messages = map example_message ts\<rparr>"

text \<open>
  A rule with two actions, the second of which sets an entity field from the capturing
  group 1.
\<close>

definition capturing_rule :: "RegexFind list \<Rightarrow> CompiledRule" where
  "capturing_rule finds =
     \<lparr>rule = \<lparr>rule_actions =
        [\<lparr>action = example_action ''view_calendar'', capturing_group = None\<rparr>,
         \<lparr>action = example_action ''track_flight'',
          capturing_group = Some [\<lparr>group_id = 1, entity_field = ''flight''\<rparr>]\<rparr>]\<rparr>,
      pattern = (\<lambda>message. finds)\<rparr>"

text \<open>
  A match whose capturing group 1 is the given string, and a rule of one action with the
  response text "Track", the static entity data "flight=" and the capturing group 1.
\<close>

definition example_find_group :: "string \<Rightarrow> RegexFind" where
  "example_find_group g =
     \<lparr>found = True, status = 0, group = (\<lambda>gid. if gid = 1 then Some g else None)\<rparr>"

definition entity_rule :: "RegexFind list \<Rightarrow> CompiledRule" where
  "entity_rule finds =
     \<lparr>rule = \<lparr>rule_actions =
        [\<lparr>action =
            \<lparr>spec_type = ''track_flight'', spec_response_text = Some ''Track'',
             spec_serialized_entity_data = Some ''flight='', spec_score = 0.9\<rparr>,
          capturing_group = Some [\<lparr>group_id = 1, entity_field = ''flight''\<rparr>]\<rparr>]\<rparr>,
      pattern = (\<lambda>message. finds)\<rparr>"

text \<open>A builder whose records are strings.\<close>

definition example_builder :: "string ReflectiveFlatbufferBuilder" where
  "example_builder =
     \<lparr>NewRoot = Some [], MergeFromSerializedFlatbuffer = (\<lambda>s e. s @ e), Serialize = (\<lambda>e. e)\<rparr>"

text \<open>
  An engine with the given preconditions, model specification, executor and rules, and
  otherwise as \<^term>\<open>example_engine\<close>.
\<close>

definition pipeline_engine ::
  "TriggeringPreconditions \<Rightarrow> TensorflowLiteModelSpec \<Rightarrow> TfLiteModelExecutor option
     \<Rightarrow> CompiledRule list \<Rightarrow> string ActionsSuggestions" where
  "pipeline_engine p spec executor rs =
     example_engine
       \<lparr>model := example_model\<lparr>preconditions := p, tflite_model_spec := spec\<rparr>,
        rules := rs,
        model_executor := executor,
        entity_data_builder := Some example_builder\<rparr>"

text \<open>
  The conditions under which the pipeline reads the sensitivity score of the model: the
  gates before the model let the conversation pass; the executor builds an interpreter,
  allocates its tensors and its invocation leaves the given outputs; the block that reads
  the triggering score does not return early; and the sensitivity output is there, valid,
  of one element, and above \<open>max_sensitive_topic_score\<close>.
\<close>

definition passes_gates ::
  "'e ActionsSuggestions \<Rightarrow> Conversation \<Rightarrow> nat \<Rightarrow> bool" where
  "passes_gates a conversation num_messages \<longleftrightarrow>
     \<not> too_much_or_not_enough_input (preconditions (model a))
         (input_text_length a conversation num_messages) \<and>
     \<not> float_quotient a (num_matching_locales a conversation num_messages) (int num_messages)
         < min_locale_match_fraction (preconditions (model a)) \<and>
     \<not> IsLowConfidenceInput a conversation num_messages"

definition model_invoked :: "'e ActionsSuggestions \<Rightarrow> Conversation \<Rightarrow> nat \<Rightarrow> Interpreter \<Rightarrow> bool" where
  "model_invoked a conversation num_messages interpreter \<longleftrightarrow>
     (case model_executor a of
        None \<Rightarrow> False
      | Some executor \<Rightarrow>
          CreateInterpreter executor \<and> AllocateTensors executor \<and>
          Invoke executor
            (SetupModelInput (tflite_model_spec (model a))
               (map message_text (last_messages conversation num_messages))
               (map user_id (last_messages conversation num_messages))
               (time_diffs_loop a (last_messages conversation num_messages) 0)
               (num_smart_replies (model a))) = Some interpreter)"

definition triggering_score_read :: "'e ActionsSuggestions \<Rightarrow> Interpreter \<Rightarrow> bool" where
  "triggering_score_read a interpreter \<longleftrightarrow>
     output_triggering_score (tflite_model_spec (model a)) < 0 \<or>
     (is_valid (float_output interpreter (output_triggering_score (tflite_model_spec (model a)))) \<and>
      tensor_size (float_output interpreter
        (output_triggering_score (tflite_model_spec (model a)))) \<noteq> 0)"

definition sensitivity_exceeds :: "'e ActionsSuggestions \<Rightarrow> Interpreter \<Rightarrow> bool" where
  "sensitivity_exceeds a interpreter \<longleftrightarrow>
     output_sensitive_topic_score (tflite_model_spec (model a)) \<ge> 0 \<and>
     is_valid (float_output interpreter
       (output_sensitive_topic_score (tflite_model_spec (model a)))) \<and>
     dim (float_output interpreter
       (output_sensitive_topic_score (tflite_model_spec (model a)))) 0 = 1 \<and>
     data (float_output interpreter
       (output_sensitive_topic_score (tflite_model_spec (model a)))) 0
       > max_sensitive_topic_score (preconditions (model a))"

text \<open>
  The request reaches the rule pass with the given response: a message is selected, the
  annotation pass and the model pass return, the gates let the conversation through, and
  the response is not suppressed for a sensitive topic.
\<close>

definition reaches_rule_pass ::
  "'e ActionsSuggestions \<Rightarrow> Conversation \<Rightarrow> (string \<Rightarrow> 'o \<Rightarrow> AnnotatedSpan list) option
     \<Rightarrow> 'o ActionSuggestionOptions \<Rightarrow> ActionsSuggestionsResponse \<Rightarrow> bool" where
  "reaches_rule_pass a conversation annotator options response \<longleftrightarrow>
     messages conversation \<noteq> [] \<and> 0 < num_messages_of a conversation \<and>
     passes_gates a conversation (nat (num_messages_of a conversation)) \<and>
     (\<exists>response1.
        SuggestActionsFromAnnotations a conversation options annotator (new_response a) =
          Some response1 \<and>
        SuggestActionsFromModel a conversation (nat (num_messages_of a conversation)) options
          response1 = Some response) \<and>
     \<not> (suppress_on_sensitive_topic (preconditions (model a)) \<and>
        output_filtered_sensitivity response)"

text \<open>
  Modelled from the spec: the ranker is outside the sources. It filters and reorders the
  list of suggestions: the actions it leaves are among those it was given, and it leaves
  the sensitivity flag as it is.
\<close>

definition ranker_filters :: "'e ActionsSuggestions \<Rightarrow> bool" where
  "ranker_filters a \<longleftrightarrow>
     (\<forall>response.
        set (actions (snd (RankActions a response))) \<subseteq> set (actions response) \<and>
        output_filtered_sensitivity (snd (RankActions a response)) =
          output_filtered_sensitivity response)"

text \<open>
  An interpreter all of whose float outputs are the one-element tensor \<open>[s]\<close> and whose
  string outputs are the one reply "Sure"; an executor that yields it; and a model
  specification with the sensitivity score at output 0, the replies at 1 and their scores
  at 2.
\<close>

definition example_interpreter :: "real \<Rightarrow> Interpreter" where
  "example_interpreter s =
     \<lparr>float_output =
        (\<lambda>i. \<lparr>is_valid = True, dim = (\<lambda>d. 1), tensor_size = 1, data = (\<lambda>k. s)\<rparr>),
      string_output = (\<lambda>i. [''Sure''])\<rparr>"

definition example_executor :: "Interpreter \<Rightarrow> TfLiteModelExecutor" where
  "example_executor interpreter =
     \<lparr>CreateInterpreter = True, AllocateTensors = True, Invoke = (\<lambda>input. Some interpreter)\<rparr>"

definition sensitivity_spec :: TensorflowLiteModelSpec where
  "sensitivity_spec =
     example_spec\<lparr>output_sensitive_topic_score := 0, output_replies := 1,
       output_replies_scores := 2\<rparr>"

text \<open>
  An interpreter as above whose output 3 is not a valid tensor, and a model specification
  that reads the triggering score from that output.
\<close>

definition untriggered_interpreter :: "real \<Rightarrow> Interpreter" where
  "untriggered_interpreter s =
     \<lparr>float_output =
        (\<lambda>i. if i = 3
             then \<lparr>is_valid = False, dim = (\<lambda>d. 0), tensor_size = 0, data = (\<lambda>k. 0)\<rparr>
             else \<lparr>is_valid = True, dim = (\<lambda>d. 1), tensor_size = 1, data = (\<lambda>k. s)\<rparr>),
      string_output = (\<lambda>i. [''Sure''])\<rparr>"

definition untriggered_spec :: TensorflowLiteModelSpec where
  "untriggered_spec = sensitivity_spec\<lparr>output_triggering_score := 3\<rparr>"

section \<open>The locale matcher: properties\<close>

lemma fields_match_spec:
  "language_matches m c \<and> script_matches m c \<and> region_matches m c
     \<longleftrightarrow> locale_matches_spec m c"
  by (auto simp: language_matches_def script_matches_def region_matches_def
      locale_matches_spec_def kAnyMatch_def)

lemma locale_loop_iff:
  "locale_loop ms c \<longleftrightarrow> (\<exists>m\<in>set ms. IsValid m \<and> locale_matches_spec m c)"
  by (induction ms) (auto simp: fields_match_spec [symmetric])

text \<open>
  C4, as stated, fails: a model-declared locale that is not valid is skipped
  by the loop, whatever its fields. Here the only model locale is the invalid locale,
  whose empty fields meet the per-field condition for the candidate \<open>en\<close>, and the
  candidate is not supported.
\<close>

theorem C4_invalid_model_locale_counterexample:
  "IsValid (example_locale ''en'' [] []) \<and>
   \<not> IsUnknown (example_locale ''en'' [] []) \<and>
   invalid_locale \<in> set (model_locales (example_engine\<lparr>model_locales := [invalid_locale]\<rparr>)) \<and>
   locale_matches_spec invalid_locale (example_locale ''en'' [] []) \<and>
   \<not> IsLocaleSupportedByModel (example_engine\<lparr>model_locales := [invalid_locale]\<rparr>)
       (example_locale ''en'' [] [])"
  by (simp add: IsLocaleSupportedByModel_def example_locale_def invalid_locale_def
      locale_matches_spec_def example_engine_def)

text \<open>
  C4, amended: a valid candidate locale that is not unknown is supported by the model
  exactly when some valid model-declared locale meets the per-field condition of the
  specification for it (invalid model locales are skipped); and a candidate with an empty
  language meets the condition for no model locale whose language is neither empty nor
  the wildcard.
\<close>

theorem C4_IsLocaleSupportedByModel_matches:
  assumes "IsValid c" and "\<not> IsUnknown c"
  shows "(IsLocaleSupportedByModel a c \<longleftrightarrow>
            (\<exists>m\<in>set (model_locales a). IsValid m \<and> locale_matches_spec m c)) \<and>
         (\<forall>m. Language c = [] \<and> Language m \<noteq> [] \<and> Language m \<noteq> ''*''
            \<longrightarrow> \<not> locale_matches_spec m c)"
  using assms
  by (auto simp: IsLocaleSupportedByModel_def locale_loop_iff locale_matches_spec_def)

theorem C4_IsLocaleSupportedByModel_matches_witness:
  "IsValid (example_locale [] ''Latn'' ''US'') \<and>
   \<not> IsUnknown (example_locale [] ''Latn'' ''US'') \<and>
   IsLocaleSupportedByModel
     (example_engine\<lparr>model_locales := [example_locale ''en'' [] [], example_locale ''*'' [] ''US'']\<rparr>)
     (example_locale [] ''Latn'' ''US'') \<and>
   \<not> locale_matches_spec (example_locale ''en'' [] []) (example_locale [] ''Latn'' ''US'')"
  using C4_IsLocaleSupportedByModel_matches
    [of "example_locale [] ''Latn'' ''US''"
        "example_engine\<lparr>model_locales :=
           [example_locale ''en'' [] [], example_locale ''*'' [] ''US'']\<rparr>"]
  by (simp add: example_locale_def example_engine_def locale_matches_spec_def)

lemma relaxed_match:
  assumes "relaxed_model_locale m m'" and "relaxed_candidate_locale c c'"
    and "locale_matches_spec m c"
  shows "locale_matches_spec m' c'"
  using assms
  unfolding relaxed_model_locale_def relaxed_candidate_locale_def locale_matches_spec_def
  by metis

lemma locale_loop_relaxed:
  assumes "list_all2 relaxed_model_locale ms ms'" and "relaxed_candidate_locale c c'"
    and "locale_loop ms c"
  shows "locale_loop ms' c'"
proof -
  from assms(3) obtain m where m: "m \<in> set ms" "IsValid m" "locale_matches_spec m c"
    by (auto simp: locale_loop_iff)
  from m(1) obtain i where i: "i < length ms" "ms ! i = m"
    by (auto simp: in_set_conv_nth)
  from assms(1) i have r: "relaxed_model_locale m (ms' ! i)" and l: "i < length ms'"
    by (auto simp: list_all2_conv_all_nth)
  from r m(2) have "IsValid (ms' ! i)"
    by (simp add: relaxed_model_locale_def)
  moreover from r assms(2) m(3) have "locale_matches_spec (ms' ! i) c'"
    by (rule relaxed_match)
  ultimately show ?thesis
    using l by (auto simp: locale_loop_iff)
qed

text \<open>
  C9, as stated, fails for the candidate side: the model locale \<open>en-Latn-US\<close> supports
  the candidate \<open>en-Latn-US\<close>, but not the candidates in which the script or the region
  is replaced by the wildcard, nor those in which the language is replaced by the
  wildcard or by the empty string.
\<close>

theorem C9_candidate_wildcard_counterexample:
  "IsLocaleSupportedByModel
     (example_engine\<lparr>model_locales := [example_locale ''en'' ''Latn'' ''US'']\<rparr>)
     (example_locale ''en'' ''Latn'' ''US'') \<and>
   \<not> IsLocaleSupportedByModel
     (example_engine\<lparr>model_locales := [example_locale ''en'' ''Latn'' ''US'']\<rparr>)
     (example_locale ''en'' ''*'' ''US'') \<and>
   \<not> IsLocaleSupportedByModel
     (example_engine\<lparr>model_locales := [example_locale ''en'' ''Latn'' ''US'']\<rparr>)
     (example_locale ''en'' ''Latn'' ''*'') \<and>
   \<not> IsLocaleSupportedByModel
     (example_engine\<lparr>model_locales := [example_locale ''en'' ''Latn'' ''US'']\<rparr>)
     (example_locale ''*'' ''Latn'' ''US'') \<and>
   \<not> IsLocaleSupportedByModel
     (example_engine\<lparr>model_locales := [example_locale ''en'' ''Latn'' ''US'']\<rparr>)
     (example_locale [] ''Latn'' ''US'')"
  by (simp add: example_locale_def example_engine_def IsLocaleSupportedByModel_def
      language_matches_def script_matches_def region_matches_def kAnyMatch_def)

text \<open>
  C9, amended: relaxing components by the rules of the matcher can only widen the
  matches. Whenever each model-declared locale is replaced by a relaxation of it (any of
  its language, script and region replaced by the wildcard or by the empty string) and
  the candidate by a relaxation of it (its script or region replaced by the empty
  string), a candidate that was supported is still supported.
\<close>

theorem C9_locale_matching_monotone:
  assumes "list_all2 relaxed_model_locale (model_locales a) ms'"
    and "relaxed_candidate_locale c c'"
    and "IsLocaleSupportedByModel a c"
  shows "IsLocaleSupportedByModel (a\<lparr>model_locales := ms'\<rparr>) c'"
proof -
  have v: "IsValid c' = IsValid c" "IsUnknown c' = IsUnknown c"
    using assms(2) by (simp_all add: relaxed_candidate_locale_def)
  show ?thesis
  proof (cases "IsValid c \<and> \<not> IsUnknown c")
    case True
    with assms(3) have "locale_loop (model_locales a) c"
      by (simp add: IsLocaleSupportedByModel_def)
    with assms(1,2) have "locale_loop ms' c'"
      by (rule locale_loop_relaxed)
    with True v show ?thesis
      by (simp add: IsLocaleSupportedByModel_def)
  next
    case False
    with assms(3) v show ?thesis
      by (auto simp: IsLocaleSupportedByModel_def split: if_splits)
  qed
qed

theorem C9_locale_matching_monotone_witness:
  "IsLocaleSupportedByModel
     (example_engine\<lparr>model_locales := [example_locale ''en'' ''Latn'' ''US'']\<rparr>)
     (example_locale ''en'' ''Latn'' ''US'') \<and>
   IsLocaleSupportedByModel
     (example_engine\<lparr>model_locales := [example_locale ''*'' [] ''US'']\<rparr>)
     (example_locale ''en'' [] ''US'')"
  using C9_locale_matching_monotone
    [of "example_engine\<lparr>model_locales := [example_locale ''en'' ''Latn'' ''US'']\<rparr>"
        "[example_locale ''*'' [] ''US'']"
        "example_locale ''en'' ''Latn'' ''US''" "example_locale ''en'' [] ''US''"]
  by (simp add: example_locale_def example_engine_def relaxed_model_locale_def
      relaxed_candidate_locale_def IsLocaleSupportedByModel_def language_matches_def
      script_matches_def region_matches_def kAnyMatch_def)

section \<open>Deduplication of annotations: properties\<close>

lemma map_find_map_of: "map_find k m = map_of m k"
  by (induction m) auto

lemma map_of_map_insert:
  "map_of m k = None \<Longrightarrow> map_of (map_insert k v m) = (map_of m)(k \<mapsto> v)"
  by (induction m) (auto simp: fun_eq_iff split: if_splits)

lemma set_map_insert: "set (map_insert k v m) = insert (k, v) (set m)"
  by (induction m) (auto split: if_splits)

lemma distinct_map_insert:
  "distinct (map fst m) \<Longrightarrow> map_of m k = None \<Longrightarrow> distinct (map fst (map_insert k v m))"
  by (induction m) (auto simp: set_map_insert split: if_splits)

lemma fst_map_assign: "map fst (map_assign k v m) = map fst m"
  by (induction m) auto

lemma map_of_map_assign:
  "map_of m k = Some j \<Longrightarrow> map_of (map_assign k v m) = (map_of m)(k \<mapsto> v)"
  by (induction m) (auto simp: fun_eq_iff split: if_splits)

lemma dedup_step_cases:
  "(map_of (dedup_step anns n m) = (map_of m)(dedup_key anns n \<mapsto> n) \<and>
    (\<forall>e. map_of m (dedup_key anns n) = Some e \<longrightarrow> dedup_score anns e < dedup_score anns n)) \<or>
   (map_of (dedup_step anns n m) = map_of m \<and>
    (\<exists>e. map_of m (dedup_key anns n) = Some e \<and> \<not> dedup_score anns e < dedup_score anns n))"
  by (cases "map_of m (dedup_key anns n)")
     (simp_all add: dedup_step_def Let_def map_find_map_of map_of_map_insert map_of_map_assign)

lemma distinct_dedup_step:
  "distinct (map fst m) \<Longrightarrow> distinct (map fst (dedup_step anns n m))"
  by (cases "map_of m (dedup_key anns n)")
     (simp_all add: dedup_step_def Let_def map_find_map_of distinct_map_insert fst_map_assign)

lemma dedup_inv_step:
  assumes "dedup_inv anns n m"
  shows "dedup_inv anns (Suc n) (dedup_step anns n m)"
proof -
  let ?f = "map_of m" and ?g = "map_of (dedup_step anns n m)"
  have d: "distinct (map fst (dedup_step anns n m))"
    using assms by (simp add: dedup_inv_def distinct_dedup_step)
  have old: "j < n \<and> dedup_key anns j = k \<and>
        (\<forall>i<n. dedup_key anns i = k \<longrightarrow>
           dedup_score anns i \<le> dedup_score anns j \<and>
           (dedup_score anns i = dedup_score anns j \<longrightarrow> j \<le> i))" if "?f k = Some j" for k j
    using assms that unfolding dedup_inv_def by blast
  have cov: "?f (dedup_key anns i) \<noteq> None" if "i < n" for i
    using assms that unfolding dedup_inv_def by blast
  have new: "j < Suc n \<and> dedup_key anns j = k \<and>
        (\<forall>i<Suc n. dedup_key anns i = k \<longrightarrow>
           dedup_score anns i \<le> dedup_score anns j \<and>
           (dedup_score anns i = dedup_score anns j \<longrightarrow> j \<le> i))" if gk: "?g k = Some j" for k j
    using dedup_step_cases [of anns n m]
  proof (elim disjE conjE exE)
    assume g: "?g = ?f(dedup_key anns n \<mapsto> n)"
      and better: "\<forall>e. ?f (dedup_key anns n) = Some e
                     \<longrightarrow> dedup_score anns e < dedup_score anns n"
    have lt: "dedup_score anns i < dedup_score anns n"
      if i: "i < n" "dedup_key anns i = dedup_key anns n" for i
    proof -
      from i obtain e where e: "?f (dedup_key anns n) = Some e"
        using cov [of i] by auto
      with better have "dedup_score anns e < dedup_score anns n" by simp
      moreover from old [OF e] i have "dedup_score anns i \<le> dedup_score anns e" by simp
      ultimately show ?thesis by simp
    qed
    show ?thesis
    proof (cases "k = dedup_key anns n")
      case True
      with gk g have j: "j = n" by simp
      have "dedup_score anns i \<le> dedup_score anns n \<and>
            (dedup_score anns i = dedup_score anns n \<longrightarrow> n \<le> i)"
        if "i < Suc n" "dedup_key anns i = k" for i
      proof (cases "i = n")
        case False
        with that True have "dedup_score anns i < dedup_score anns n"
          by (intro lt) simp_all
        then show ?thesis by simp
      qed simp
      with True show ?thesis
        unfolding j by simp
    next
      case False
      with gk g have "?f k = Some j" by simp
      from old [OF this] False show ?thesis
        by (auto simp: less_Suc_eq)
    qed
  next
    fix e
    assume g: "?g = ?f" and e: "?f (dedup_key anns n) = Some e"
      and worse: "\<not> dedup_score anns e < dedup_score anns n"
    from gk g have fk: "?f k = Some j" by simp
    show ?thesis
    proof (cases "k = dedup_key anns n")
      case True
      with fk e have j: "j = e" by simp
      from old [OF fk] worse show ?thesis
        unfolding j using True by (auto simp: less_Suc_eq)
    next
      case False
      from old [OF fk] False show ?thesis
        by (auto simp: less_Suc_eq)
    qed
  qed
  have cov': "?g (dedup_key anns i) \<noteq> None" if "i < Suc n" for i
    using dedup_step_cases [of anns n m] cov that
    by (auto simp: less_Suc_eq)
  from d new cov' show ?thesis
    unfolding dedup_inv_def by blast
qed

lemma dedup_inv_fold: "dedup_inv anns n (fold (dedup_step anns) [0..<n] [])"
proof (induction n)
  case 0
  show ?case by (simp add: dedup_inv_def)
next
  case (Suc n)
  then show ?case by (simp add: dedup_inv_step)
qed

lemma action_annotations_loop_name:
  "x \<in> set (action_annotations_loop a t i spans) \<Longrightarrow> name x = collection (entity x)"
  by (induction spans) (auto split: list.splits)

text \<open>
  The result of the loop, read off the invariant: one index for each key, of highest
  score among the indices of the key and the first of those with that score.
\<close>

lemma DeduplicateAnnotations_representatives:
  "distinct (map (dedup_key anns) (DeduplicateAnnotations anns)) \<and>
   (\<forall>i<length anns. \<exists>j\<in>set (DeduplicateAnnotations anns). dedup_key anns j = dedup_key anns i) \<and>
   (\<forall>j\<in>set (DeduplicateAnnotations anns). j < length anns \<and>
      (\<forall>i<length anns. dedup_key anns i = dedup_key anns j \<longrightarrow>
         dedup_score anns i \<le> dedup_score anns j \<and>
         (dedup_score anns i = dedup_score anns j \<longrightarrow> j \<le> i)))"
proof -
  define m where "m = fold (dedup_step anns) [0..<length anns] []"
  have res: "DeduplicateAnnotations anns = map snd m"
    by (simp add: DeduplicateAnnotations_def m_def)
  have inv: "dedup_inv anns (length anns) m"
    unfolding m_def by (rule dedup_inv_fold)
  then have dist: "distinct (map fst m)"
    by (simp add: dedup_inv_def)
  have entry: "j < length anns \<and> dedup_key anns j = k \<and>
      (\<forall>i<length anns. dedup_key anns i = k \<longrightarrow>
         dedup_score anns i \<le> dedup_score anns j \<and>
         (dedup_score anns i = dedup_score anns j \<longrightarrow> j \<le> i))" if "(k, j) \<in> set m" for k j
  proof -
    from that dist have "map_of m k = Some j" by simp
    with inv show ?thesis unfolding dedup_inv_def by blast
  qed
  have keys: "map (dedup_key anns) (map snd m) = map fst m"
    using entry by (auto simp: list_eq_iff_nth_eq)
  have "distinct (map (dedup_key anns) (DeduplicateAnnotations anns))"
    unfolding res keys by (rule dist)
  moreover have "\<exists>j\<in>set (DeduplicateAnnotations anns). dedup_key anns j = dedup_key anns i"
    if "i < length anns" for i
  proof -
    from inv that obtain j where j: "map_of m (dedup_key anns i) = Some j"
      unfolding dedup_inv_def by blast
    then have "(dedup_key anns i, j) \<in> set m" by (rule map_of_SomeD)
    with entry [OF this] show ?thesis
      unfolding res by force
  qed
  moreover have "j < length anns \<and>
      (\<forall>i<length anns. dedup_key anns i = dedup_key anns j \<longrightarrow>
         dedup_score anns i \<le> dedup_score anns j \<and>
         (dedup_score anns i = dedup_score anns j \<longrightarrow> j \<le> i))"
    if "j \<in> set (DeduplicateAnnotations anns)" for j
  proof -
    from that obtain k where "(k, j) \<in> set m"
      unfolding res by auto
    from entry [OF this] show ?thesis by blast
  qed
  ultimately show ?thesis by blast
qed

lemma action_annotations_loop_source:
  assumes "x \<in> set (action_annotations_loop a t idx spans)"
  shows "\<exists>sp\<in>set spans. classification sp \<noteq> [] \<and>
           entity x = hd (classification sp) \<and>
           name x = collection (hd (classification sp)) \<and>
           annotation_text x = UTF8Substring a t (fst (span sp)) (snd (span sp))"
  using assms
  by (induction spans) (auto split: list.splits)

text \<open>
  C5: the candidates are keyed by the pair of their \<open>name\<close> and their text, which for the
  candidates of the annotation pass are the collection name of the top classification and
  the matched substring. The result of \<^verbatim>\<open>DeduplicateAnnotations\<close> holds exactly one index
  for each such pair among the annotations, and the annotation selected for a pair has
  the highest classification score among the annotations of that pair and is the first
  of those with that score: a strictly higher score wins, ties keep the first seen.
  Scores are reals here.
\<close>

theorem C5_DeduplicateAnnotations:
  "distinct (map (\<lambda>j. (name (anns ! j), annotation_text (anns ! j)))
     (DeduplicateAnnotations anns)) \<and>
   (\<forall>i<length anns. \<exists>j\<in>set (DeduplicateAnnotations anns).
      name (anns ! j) = name (anns ! i) \<and>
      annotation_text (anns ! j) = annotation_text (anns ! i)) \<and>
   (\<forall>j\<in>set (DeduplicateAnnotations anns). j < length anns \<and>
      (\<forall>i<length anns.
         name (anns ! i) = name (anns ! j) \<and>
         annotation_text (anns ! i) = annotation_text (anns ! j) \<longrightarrow>
         score (entity (anns ! i)) \<le> score (entity (anns ! j)) \<and>
         (score (entity (anns ! i)) = score (entity (anns ! j)) \<longrightarrow> j \<le> i))) \<and>
   (\<forall>x\<in>set (action_annotations_loop a t idx spans).
      \<exists>sp\<in>set spans. classification sp \<noteq> [] \<and>
        entity x = hd (classification sp) \<and>
        name x = collection (hd (classification sp)) \<and>
        annotation_text x = UTF8Substring a t (fst (span sp)) (snd (span sp)))"
proof -
  have key: "dedup_key anns = (\<lambda>j. (name (anns ! j), annotation_text (anns ! j)))"
    by (simp add: dedup_key_def fun_eq_iff)
  have sc: "dedup_score anns = (\<lambda>j. score (entity (anns ! j)))"
    by (simp add: dedup_score_def fun_eq_iff)
  from DeduplicateAnnotations_representatives [of anns]
  have "distinct (map (\<lambda>j. (name (anns ! j), annotation_text (anns ! j)))
     (DeduplicateAnnotations anns)) \<and>
   (\<forall>i<length anns. \<exists>j\<in>set (DeduplicateAnnotations anns).
      name (anns ! j) = name (anns ! i) \<and>
      annotation_text (anns ! j) = annotation_text (anns ! i)) \<and>
   (\<forall>j\<in>set (DeduplicateAnnotations anns). j < length anns \<and>
      (\<forall>i<length anns.
         name (anns ! i) = name (anns ! j) \<and>
         annotation_text (anns ! i) = annotation_text (anns ! j) \<longrightarrow>
         score (entity (anns ! i)) \<le> score (entity (anns ! j)) \<and>
         (score (entity (anns ! i)) = score (entity (anns ! j)) \<longrightarrow> j \<le> i)))"
    unfolding key sc by simp
  then show ?thesis
    using action_annotations_loop_source [of _ a t idx spans] by blast
qed

text \<open>
  Scenario C, two annotations of "tomorrow" as "date" with scores 0.4 and 0.8, of which
  the second is selected; and five annotations of three keys, with a tie.
\<close>

lemma eval_DeduplicateAnnotations:
  "DeduplicateAnnotations
     [example_annotation ''date'' ''tomorrow'' 0.4, example_annotation ''date'' ''tomorrow'' 0.8]
     = [1]"
  "DeduplicateAnnotations example_annotations = [4, 2, 1]"
  by (simp_all add: DeduplicateAnnotations_def dedup_step_def dedup_key_def dedup_score_def
      example_annotation_def example_annotations_def upt_rec less_prod_def less_char_def)

theorem C5_DeduplicateAnnotations_witness:
  "DeduplicateAnnotations
     [example_annotation ''date'' ''tomorrow'' 0.4, example_annotation ''date'' ''tomorrow'' 0.8]
     = [1] \<and>
   DeduplicateAnnotations example_annotations = [4, 2, 1] \<and>
   distinct (map (\<lambda>j. (name (example_annotations ! j), annotation_text (example_annotations ! j)))
     [4, 2, 1]) \<and>
   score (entity (example_annotations ! 0)) \<le> score (entity (example_annotations ! 2)) \<and>
   score (entity (example_annotations ! 3)) = score (entity (example_annotations ! 2))"
proof -
  note w = C5_DeduplicateAnnotations
    [of example_annotations example_engine "[]" 0 "[]", THEN conjunct1]
  have d: "distinct (map (\<lambda>j. (name (example_annotations ! j),
      annotation_text (example_annotations ! j))) [4, 2, 1])"
    using w by (simp only: eval_DeduplicateAnnotations)
  have s: "score (entity (example_annotations ! 0)) \<le> score (entity (example_annotations ! 2))"
    "score (entity (example_annotations ! 3)) = score (entity (example_annotations ! 2))"
    by (simp_all add: example_annotations_def example_annotation_def)
  from eval_DeduplicateAnnotations d s show ?thesis
    by (intro conjI)
qed

section \<open>The double-array trie: properties\<close>

text \<open>
  C7: the check after the step to the children is \<^verbatim>\<open>pos > nodes_length_\<close>, so a position
  equal to the number of nodes is not rejected. In the trie of two nodes below, the byte 1
  leads to node 1, a leaf, whose offset 3 gives the position 2, the number of nodes: the
  call succeeds and reports a match whose id is read at position 2, beyond the last node.
  With the offset 2 the position is 3 and the call fails.
\<close>

theorem C7_position_equal_to_bounds_accepted:
  "unat ((offset (corrupt_trie 3) 0 XOR ucast (1 :: 8 word)) XOR
         offset (corrupt_trie 3) (offset (corrupt_trie 3) 0 XOR ucast (1 :: 8 word)))
     = nodes_length (corrupt_trie 3) \<and>
   FindAllPrefixMatches (corrupt_trie 3) char_is_signed [1] []
     = (True, [\<lparr>match_id = value_of (corrupt_trie 3) 2, match_length = 1\<rparr>]) \<and>
   FindAllPrefixMatches (corrupt_trie 2) char_is_signed [1] [] = (False, [])"
  by (simp add: FindAllPrefixMatches_def GatherPrefixMatches_def corrupt_trie_def
      char_as_uint32_def)

section \<open>The reflective flatbuffer: properties\<close>

lemma Set_field_result:
  "Set_field fb field v =
     (if \<exists>f. field = Some f \<and> IsMatchingType fb f v
      then (True, fb\<lparr>cached_fields := (cached_fields fb)(the field \<mapsto> v)\<rparr>)
      else (False, fb))"
  by (auto simp: Set_field_def split: option.splits)

lemma Set_name_result:
  "Set_name fb field_name v =
     (if \<exists>f. GetFieldOrNull fb field_name = Some f \<and> IsMatchingType fb f v
      then (True, fb\<lparr>cached_fields := (cached_fields fb)(the (GetFieldOrNull fb field_name) \<mapsto> v)\<rparr>)
      else (False, fb))"
  by (auto simp: Set_name_def Set_field_result split: option.splits)

lemma well_typed_Set_field: "well_typed fb \<Longrightarrow> well_typed (snd (Set_field fb field v))"
  by (auto simp: Set_field_result well_typed_def)

lemma well_typed_Set_name: "well_typed fb \<Longrightarrow> well_typed (snd (Set_name fb field_name v))"
  by (auto simp: Set_name_result well_typed_def)

lemma well_typed_apply_call: "well_typed fb \<Longrightarrow> well_typed (apply_call c fb)"
  by (cases c) (simp_all add: well_typed_Set_field well_typed_Set_name)

lemma well_typed_fold: "well_typed fb \<Longrightarrow> well_typed (fold apply_call calls fb)"
  by (induction calls arbitrary: fb) (simp_all add: well_typed_apply_call)

text \<open>
  C8: both \<^verbatim>\<open>Set\<close> methods succeed exactly when the field is there and
  \<^verbatim>\<open>IsMatchingType\<close> accepts the value for it; then the value is stored as it is, over
  any value cached for that field, and otherwise the call returns false and leaves the
  flatbuffer as it was. So a flatbuffer whose cached values all match their fields stays
  so under each call and under every sequence of calls, and every flatbuffer built by such
  calls from one with no field set has only matching values.
\<close>

theorem C8_Set_keeps_types:
  "(Set_name fb field_name v =
      (if \<exists>f. GetFieldOrNull fb field_name = Some f \<and> IsMatchingType fb f v
       then (True, fb\<lparr>cached_fields :=
               (cached_fields fb)(the (GetFieldOrNull fb field_name) \<mapsto> v)\<rparr>)
       else (False, fb))) \<and>
   (Set_field fb field v =
      (if \<exists>f. field = Some f \<and> IsMatchingType fb f v
       then (True, fb\<lparr>cached_fields := (cached_fields fb)(the field \<mapsto> v)\<rparr>)
       else (False, fb))) \<and>
   (well_typed fb \<longrightarrow>
      well_typed (snd (Set_name fb field_name v)) \<and> well_typed (snd (Set_field fb field v)) \<and>
      well_typed (fold apply_call calls fb)) \<and>
   (cached_fields fb = Map.empty \<longrightarrow> well_typed (fold apply_call calls fb))"
proof (intro conjI impI)
  show "Set_name fb field_name v =
      (if \<exists>f. GetFieldOrNull fb field_name = Some f \<and> IsMatchingType fb f v
       then (True, fb\<lparr>cached_fields :=
               (cached_fields fb)(the (GetFieldOrNull fb field_name) \<mapsto> v)\<rparr>)
       else (False, fb))"
    by (rule Set_name_result)
next
  show "Set_field fb field v =
      (if \<exists>f. field = Some f \<and> IsMatchingType fb f v
       then (True, fb\<lparr>cached_fields := (cached_fields fb)(the field \<mapsto> v)\<rparr>)
       else (False, fb))"
    by (rule Set_field_result)
next
  assume "well_typed fb"
  then show "well_typed (snd (Set_name fb field_name v))"
    and "well_typed (snd (Set_field fb field v))"
    and "well_typed (fold apply_call calls fb)"
    by (rule well_typed_Set_name well_typed_Set_field well_typed_fold)+
next
  assume "cached_fields fb = Map.empty"
  then have "well_typed fb"
    by (simp add: well_typed_def)
  then show "well_typed (fold apply_call calls fb)"
    by (rule well_typed_fold)
qed

theorem C8_Set_keeps_types_witness:
  "Set_name example_flatbuffer ''count'' (Inr ''three'') = (False, example_flatbuffer) \<and>
   fst (Set_name example_flatbuffer ''count'' (Inl 3)) \<and>
   cached_fields (snd (Set_name example_flatbuffer ''count'' (Inl 3))) ''count'' = Some (Inl 3) \<and>
   well_typed example_flatbuffer \<and>
   well_typed (fold apply_call
     [SetByName ''count'' (Inl 3), SetByField (Some ''label'') (Inl 4), SetByName ''label'' (Inr ''x'')]
     example_flatbuffer)"
  using C8_Set_keeps_types
    [of example_flatbuffer "''count''" "Inr ''three''" None
        "[SetByName ''count'' (Inl 3), SetByField (Some ''label'') (Inl 4),
          SetByName ''label'' (Inr ''x'')]"]
    C8_Set_keeps_types [of example_flatbuffer "''count''" "Inl 3" None "[]"]
  by (simp add: example_flatbuffer_def well_typed_def)

section \<open>The gating pipeline: properties\<close>

subsection \<open>Passes that only append actions\<close>

lemma extends_actions_refl: "extends_actions r r"
  unfolding extends_actions_def by (rule exI [of _ "[]"]) simp

lemma extends_actions_trans:
  "extends_actions r r' \<Longrightarrow> extends_actions r' r'' \<Longrightarrow> extends_actions r r''"
  by (auto simp: extends_actions_def)

lemma extends_actions_append: "extends_actions r (r\<lparr>actions := actions r @ xs\<rparr>)"
  by (auto simp: extends_actions_def)

lemma create_actions_loop_extends: "extends_actions s (create_actions_loop ms ann s)"
proof (induction ms arbitrary: s)
  case Nil
  show ?case by (simp add: extends_actions_refl)
next
  case (Cons m ms)
  show ?case
    by (auto intro: Cons extends_actions_trans [OF extends_actions_append Cons])
qed

lemma CreateActionsFromAnnotation_extends:
  "extends_actions s (CreateActionsFromAnnotation a i ann s)"
  by (simp add: CreateActionsFromAnnotation_def create_actions_loop_extends
      extends_actions_refl split: option.splits)

lemma fold_extends:
  assumes "\<And>x s. extends_actions s (f x s)"
  shows "extends_actions s (fold f xs s)"
proof (induction xs arbitrary: s)
  case Nil
  show ?case by (simp add: extends_actions_refl)
next
  case (Cons x xs)
  show ?case
    using extends_actions_trans [OF assms Cons] by simp
qed

lemma SuggestActionsFromAnnotations_extends:
  assumes "SuggestActionsFromAnnotations a conv opts ann r = Some r1"
  shows "extends_actions r r1"
proof (cases "annotation_actions_spec (model a) = None \<or>
         annotation_mapping (the (annotation_actions_spec (model a))) = None \<or>
         the (annotation_mapping (the (annotation_actions_spec (model a)))) = []")
  case True
  with assms have "r1 = r"
    by (simp add: SuggestActionsFromAnnotations_def)
  then show ?thesis by (simp add: extends_actions_refl)
next
  case False
  with assms show ?thesis
    by (auto simp: SuggestActionsFromAnnotations_def Let_def
        intro!: fold_extends CreateActionsFromAnnotation_extends
        split: list.splits if_splits)
qed

subsection \<open>The input-length gate\<close>

lemma input_step_fst:
  "fst (fold (input_step a) ms st) = fst st + (\<Sum>m\<leftarrow>ms. int (length (message_text m)))"
  by (induction ms arbitrary: st)
     (auto simp: input_step_def split: prod.splits option.splits)

lemma input_text_length_sum:
  "input_text_length a conv n = (\<Sum>m\<leftarrow>last_messages conv n. int (length (message_text m)))"
  by (simp add: input_text_length_def input_step_fst)

text \<open>
  C3, amended: with a message selected and the annotation pass done, the pipeline stops at
  the input-length gate exactly when the total text length of the last \<open>num_messages\<close>
  messages is below \<open>min_input_length\<close>, or \<open>max_input_length\<close> is not negative and the
  length is above it (a negative maximum means no upper bound; a maximum of 0 is a bound).
  When it stops, the request succeeds with the response of the annotation pass, which is
  the fresh response with the annotation-derived actions appended: nothing of the model
  is added and no suppression flag is set. Otherwise the pipeline goes on to the locale
  gate with that response.
\<close>

theorem C3_input_length_gate:
  assumes "messages conv \<noteq> []" and "0 < num_messages_of a conv"
    and "SuggestActionsFromAnnotations a conv opts ann (new_response a) = Some r1"
    and "len = (\<Sum>m\<leftarrow>last_messages conv (nat (num_messages_of a conv)).
                  int (length (message_text m)))"
  shows "(len < min_input_length (preconditions (model a)) \<or>
          (0 \<le> max_input_length (preconditions (model a)) \<and>
           max_input_length (preconditions (model a)) < len)
          \<longrightarrow> GatherActionsSuggestions a conv ann opts (new_response a) = Some (True, r1)) \<and>
         (\<not> (len < min_input_length (preconditions (model a)) \<or>
          (0 \<le> max_input_length (preconditions (model a)) \<and>
           max_input_length (preconditions (model a)) < len))
          \<longrightarrow> GatherActionsSuggestions a conv ann opts (new_response a) =
               gather_after_input_length a conv opts (nat (num_messages_of a conv)) r1) \<and>
         extends_actions (new_response a) r1 \<and>
         \<not> output_filtered_sensitivity r1 \<and> \<not> output_filtered_min_triggering_score r1 \<and>
         \<not> output_filtered_low_confidence r1 \<and> \<not> output_filtered_locale_mismatch r1"
proof -
  have len: "input_text_length a conv (nat (num_messages_of a conv)) = len"
    using assms(4) by (simp add: input_text_length_sum)
  have ext: "extends_actions (new_response a) r1"
    using assms(3) by (rule SuggestActionsFromAnnotations_extends)
  then obtain xs where r1: "r1 = (new_response a)\<lparr>actions := actions (new_response a) @ xs\<rparr>"
    unfolding extends_actions_def by blast
  have flags: "\<not> output_filtered_sensitivity r1 \<and> \<not> output_filtered_min_triggering_score r1 \<and>
         \<not> output_filtered_low_confidence r1 \<and> \<not> output_filtered_locale_mismatch r1"
    unfolding r1 by (simp add: new_response_def)
  have gather: "GatherActionsSuggestions a conv ann opts (new_response a) =
      (if too_much_or_not_enough_input (preconditions (model a)) len then Some (True, r1)
       else gather_after_input_length a conv opts (nat (num_messages_of a conv)) r1)"
    using assms(1,2,3) by (simp add: GatherActionsSuggestions_def len)
  show ?thesis
    using ext flags unfolding gather too_much_or_not_enough_input_def by auto
qed


subsection \<open>The rule pass\<close>

lemma rule_actions_loop_False:
  assumes "rule_actions_loop a h ras m s = Some (False, s')"
  shows "\<exists>ra\<in>set ras. rule_entity_data a h ra m = ReturnFalse"
  using assms
proof (induction ras arbitrary: s)
  case Nil
  then show ?case by simp
next
  case (Cons ra ras)
  then show ?case
    by (cases "rule_entity_data a h ra m") auto
qed

lemma find_loop_False:
  assumes "find_loop a r h finds s = Some (False, s')"
  shows "\<exists>m\<in>set (takeWhile (\<lambda>m. found m \<and> status m = kNoError) finds).
           \<exists>ra\<in>set (rule_actions (rule r)). rule_entity_data a h ra m = ReturnFalse"
  using assms
proof (induction finds arbitrary: s)
  case Nil
  then show ?case by simp
next
  case (Cons m finds)
  show ?case
  proof (cases "found m \<and> status m = kNoError")
    case False
    with Cons.prems show ?thesis by auto
  next
    case True
    show ?thesis
    proof (cases "rule_actions_loop a h (rule_actions (rule r)) m s")
      case None
      with Cons.prems True show ?thesis by simp
    next
      case (Some res)
      obtain ok s1 where res: "res = (ok, s1)" by (cases res)
      show ?thesis
      proof (cases ok)
        case True
        with Cons.prems \<open>found m \<and> status m = kNoError\<close> Some res
        have "find_loop a r h finds s1 = Some (False, s')" by simp
        from Cons.IH [OF this] \<open>found m \<and> status m = kNoError\<close> show ?thesis by auto
      next
        case False
        with Some res have "rule_actions_loop a h (rule_actions (rule r)) m s = Some (False, s1)"
          by simp
        from rule_actions_loop_False [OF this] \<open>found m \<and> status m = kNoError\<close>
        show ?thesis by auto
      qed
    qed
  qed
qed

lemma rules_loop_False:
  assumes "rules_loop a rs message s = Some (False, s')"
  shows "\<exists>r\<in>set rs. \<exists>m\<in>set (rule_matches r message). \<exists>ra\<in>set (rule_actions (rule r)).
           rule_entity_data a (HasEntityData (rule r)) ra m = ReturnFalse"
  using assms
proof (induction rs arbitrary: s)
  case Nil
  then show ?case by simp
next
  case (Cons r rs)
  show ?case
  proof (cases "find_loop a r (HasEntityData (rule r)) (pattern r message) s")
    case None
    with Cons.prems show ?thesis by simp
  next
    case (Some res)
    obtain ok s1 where res: "res = (ok, s1)" by (cases res)
    show ?thesis
    proof (cases ok)
      case True
      with Cons.prems Some res have "rules_loop a rs message s1 = Some (False, s')" by simp
      from Cons.IH [OF this] show ?thesis by auto
    next
      case False
      with Some res
      have "find_loop a r (HasEntityData (rule r)) (pattern r message) s = Some (False, s1)"
        by simp
      from find_loop_False [OF this] show ?thesis
        by (auto simp: rule_matches_def)
    qed
  qed
qed


lemma HasEntityData_loop_iff:
  "HasEntityData_loop ras \<longleftrightarrow>
     (\<exists>ra\<in>set ras. spec_serialized_entity_data (action ra) \<noteq> None \<or> capturing_group ra \<noteq> None)"
  by (induction ras) auto

lemma HasEntityData_declares: "HasEntityData r = declares_entity_data r"
  by (simp add: HasEntityData_def declares_entity_data_def HasEntityData_loop_iff)

lemma fold_bind_None:
  "fold (\<lambda>g e. Option.bind e (f g)) groups None = None"
  by (induction groups) simp_all

lemma capturing_group_loop_spec:
  "capturing_group_loop a groups m e = set_captured_fields a groups m e"
proof (induction groups arbitrary: e)
  case Nil
  show ?case by (simp add: set_captured_fields_def)
next
  case (Cons g groups)
  show ?case
  proof (cases "SetFieldFromCapturingGroup a (group_id g) (entity_field g) m e")
    case None
    then show ?thesis
      by (simp add: set_captured_fields_def fold_bind_None)
  next
    case (Some e')
    with Cons [of e'] show ?thesis
      by (simp add: set_captured_fields_def)
  qed
qed

lemma set_captured_fields_Nil: "set_captured_fields a [] m e = Some e"
  by (simp add: set_captured_fields_def)

text \<open>The three outcomes of the entity data of an action, in the terms above.\<close>

lemma rule_entity_data_spec:
  "rule_entity_data a (HasEntityData r) ra m =
     (if \<not> declares_entity_data r then Value []
      else
        (case entity_data_builder a of
           None \<Rightarrow> CheckFailed
         | Some builder \<Rightarrow>
            (case NewRoot builder of
               None \<Rightarrow> CheckFailed
             | Some new_root \<Rightarrow>
                (case entity_payload_spec a r ra m of
                   None \<Rightarrow> ReturnFalse
                 | Some payload \<Rightarrow> Value payload))))"
  by (auto simp: rule_entity_data_def HasEntityData_declares entity_payload_spec_def
      capturing_group_loop_spec set_captured_fields_Nil Let_def
      split: option.splits)

lemma rule_entity_data_Value:
  "rule_entity_data a (HasEntityData r) ra m = Value d \<longleftrightarrow> entity_payload_spec a r ra m = Some d"
  by (auto simp: rule_entity_data_spec entity_payload_spec_def split: option.splits if_splits)

lemma rule_suggestion_spec: "rule_suggestion spec d = suggestion_spec spec d"
  by (cases "spec_response_text spec") (simp_all add: rule_suggestion_def suggestion_spec_def)

lemma rule_actions_loop_complete:
  assumes "\<forall>ra\<in>set ras. entity_payload_spec a r ra m \<noteq> None"
  shows "rule_actions_loop a (HasEntityData r) ras m s =
     Some (True, s\<lparr>actions := actions s @
       map (\<lambda>ra. suggestion_spec (action ra) (the (entity_payload_spec a r ra m))) ras\<rparr>)"
  using assms
proof (induction ras arbitrary: s)
  case Nil
  show ?case by simp
next
  case (Cons ra ras)
  from Cons.prems obtain d where d: "entity_payload_spec a r ra m = Some d"
    by auto
  then have v: "rule_entity_data a (HasEntityData r) ra m = Value d"
    by (simp add: rule_entity_data_Value)
  from Cons.prems have "\<forall>ra\<in>set ras. entity_payload_spec a r ra m \<noteq> None"
    by simp
  from Cons.IH [OF this] show ?case
    by (simp add: v d rule_suggestion_spec)
qed

lemma rule_actions_loop_defined:
  assumes "rule_actions_loop a (HasEntityData r) ras m s = Some (True, s')"
  shows "\<forall>ra\<in>set ras. entity_payload_spec a r ra m \<noteq> None"
  using assms
proof (induction ras arbitrary: s)
  case Nil
  show ?case by simp
next
  case (Cons ra ras)
  from Cons.prems obtain d where d: "rule_entity_data a (HasEntityData r) ra m = Value d"
    by (cases "rule_entity_data a (HasEntityData r) ra m") simp_all
  with Cons.prems have "rule_actions_loop a (HasEntityData r) ras m
      (s\<lparr>actions := actions s @ [rule_suggestion (action ra) d]\<rparr>) = Some (True, s')"
    by simp
  from Cons.IH [OF this] d show ?case
    by (simp add: rule_entity_data_Value)
qed

lemma find_loop_complete:
  assumes "\<forall>m\<in>set (takeWhile (\<lambda>m. found m \<and> status m = kNoError) finds).
             \<forall>ra\<in>set (rule_actions (rule r)). entity_payload_spec a (rule r) ra m \<noteq> None"
  shows "find_loop a r (HasEntityData (rule r)) finds s =
     Some (True, s\<lparr>actions := actions s @
       concat (map (expected_match_suggestions a r)
         (takeWhile (\<lambda>m. found m \<and> status m = kNoError) finds))\<rparr>)"
  using assms
proof (induction finds arbitrary: s)
  case Nil
  show ?case by simp
next
  case (Cons m finds)
  show ?case
  proof (cases "found m \<and> status m = kNoError")
    case False
    then show ?thesis by auto
  next
    case True
    with Cons.prems have here: "\<forall>ra\<in>set (rule_actions (rule r)).
        entity_payload_spec a (rule r) ra m \<noteq> None"
      and rest: "\<forall>m\<in>set (takeWhile (\<lambda>m. found m \<and> status m = kNoError) finds).
             \<forall>ra\<in>set (rule_actions (rule r)). entity_payload_spec a (rule r) ra m \<noteq> None"
      by simp_all
    from rule_actions_loop_complete [OF here] Cons.IH [OF rest] True show ?thesis
      by (simp add: expected_match_suggestions_def)
  qed
qed

lemma find_loop_defined:
  assumes "find_loop a r (HasEntityData (rule r)) finds s = Some (True, s')"
  shows "\<forall>m\<in>set (takeWhile (\<lambda>m. found m \<and> status m = kNoError) finds).
             \<forall>ra\<in>set (rule_actions (rule r)). entity_payload_spec a (rule r) ra m \<noteq> None"
  using assms
proof (induction finds arbitrary: s)
  case Nil
  show ?case by simp
next
  case (Cons m finds)
  show ?case
  proof (cases "found m \<and> status m = kNoError")
    case False
    then show ?thesis by auto
  next
    case True
    with Cons.prems obtain s1 where
      s1: "rule_actions_loop a (HasEntityData (rule r)) (rule_actions (rule r)) m s = Some (True, s1)"
      and rest: "find_loop a r (HasEntityData (rule r)) finds s1 = Some (True, s')"
      by (auto split: option.splits prod.splits bool.splits)
    from rule_actions_loop_defined [OF s1] Cons.IH [OF rest] True show ?thesis
      by simp
  qed
qed

lemma rules_loop_complete:
  assumes "payloads_defined a rs message"
  shows "rules_loop a rs message s =
     Some (True, s\<lparr>actions := actions s @ expected_rule_suggestions a rs message\<rparr>)"
  using assms
proof (induction rs arbitrary: s)
  case Nil
  show ?case by (simp add: expected_rule_suggestions_def)
next
  case (Cons r rs)
  from Cons.prems have here: "\<forall>m\<in>set (takeWhile (\<lambda>m. found m \<and> status m = kNoError)
        (pattern r message)).
      \<forall>ra\<in>set (rule_actions (rule r)). entity_payload_spec a (rule r) ra m \<noteq> None"
    and rest: "payloads_defined a rs message"
    by (simp_all add: payloads_defined_def rule_matches_def)
  from find_loop_complete [OF here] Cons.IH [OF rest] show ?case
    by (simp add: expected_rule_suggestions_def rule_matches_def)
qed

lemma rules_loop_defined:
  assumes "rules_loop a rs message s = Some (True, s')"
  shows "payloads_defined a rs message"
  using assms
proof (induction rs arbitrary: s)
  case Nil
  show ?case by (simp add: payloads_defined_def)
next
  case (Cons r rs)
  from Cons.prems obtain s1 where
    s1: "find_loop a r (HasEntityData (rule r)) (pattern r message) s = Some (True, s1)"
    and rest: "rules_loop a rs message s1 = Some (True, s')"
    by (auto split: option.splits prod.splits bool.splits)
  from find_loop_defined [OF s1] Cons.IH [OF rest] show ?case
    by (simp add: payloads_defined_def rule_matches_def)
qed

lemma length_expected_rule_suggestions:
  "length (expected_rule_suggestions a rs message) =
     (\<Sum>r\<leftarrow>rs. length (rule_matches r message) * length (rule_actions (rule r)))"
proof -
  have "length (concat (map (expected_match_suggestions a r) ms)) =
      length ms * length (rule_actions (rule r))"
    for r and ms :: "RegexFind list"
    by (induction ms) (simp_all add: expected_match_suggestions_def)
  then show ?thesis
    by (simp add: expected_rule_suggestions_def length_concat comp_def)
qed

lemma rule_entity_data_no_abort:
  assumes "entity_data_builder a = Some b" and "NewRoot b = Some new_root"
  shows "rule_entity_data a h ra m \<noteq> CheckFailed"
  using assms by (simp add: rule_entity_data_def Let_def split: option.splits)

lemma rule_actions_loop_no_abort:
  assumes "entity_data_builder a = Some b" and "NewRoot b = Some new_root"
  shows "rule_actions_loop a h ras m s \<noteq> None"
proof (induction ras arbitrary: s)
  case Nil
  show ?case by simp
next
  case (Cons ra ras)
  show ?case
    using rule_entity_data_no_abort [OF assms, of h ra m] Cons
    by (cases "rule_entity_data a h ra m") simp_all
qed

lemma find_loop_no_abort:
  assumes "entity_data_builder a = Some b" and "NewRoot b = Some new_root"
  shows "find_loop a r h finds s \<noteq> None"
proof (induction finds arbitrary: s)
  case Nil
  show ?case by simp
next
  case (Cons m finds)
  show ?case
    using rule_actions_loop_no_abort [OF assms, of h "rule_actions (rule r)" m s] Cons
    by (auto split: option.splits bool.splits)
qed

lemma rules_loop_no_abort:
  assumes "entity_data_builder a = Some b" and "NewRoot b = Some new_root"
  shows "rules_loop a rs message s \<noteq> None"
proof (induction rs arbitrary: s)
  case Nil
  show ?case by simp
next
  case (Cons r rs)
  show ?case
    using find_loop_no_abort [OF assms, of r "HasEntityData (rule r)" "pattern r message" s] Cons
    by (auto split: option.splits bool.splits)
qed

lemma extraction_fails_payload:
  assumes "extraction_fails a ra m" and "ra \<in> set (rule_actions r)"
  shows "entity_payload_spec a r ra m = None"
proof -
  from assms(1) obtain groups where g: "capturing_group ra = Some groups"
    by (auto simp: extraction_fails_def split: option.splits)
  with assms(2) have "declares_entity_data r"
    unfolding declares_entity_data_def by force
  with assms(1) g show ?thesis
    by (auto simp: extraction_fails_def entity_payload_spec_def split: option.splits)
qed

lemma ReturnFalse_extraction_fails:
  assumes "rule_entity_data a (HasEntityData r) ra m = ReturnFalse"
  shows "extraction_fails a ra m"
  using assms
  by (auto simp: rule_entity_data_def extraction_fails_def capturing_group_loop_spec Let_def
      split: if_splits option.splits)

lemma rules_loop_fails:
  assumes "\<exists>cr\<in>set rs. \<exists>m\<in>set (rule_matches cr message). \<exists>ra\<in>set (rule_actions (rule cr)).
             extraction_fails a ra m"
  shows "\<exists>s'. rules_loop a rs message s = Some (False, s')"
proof -
  from assms obtain cr m ra where
    f: "cr \<in> set rs" "m \<in> set (rule_matches cr message)" "ra \<in> set (rule_actions (rule cr))"
      "extraction_fails a ra m"
    by blast
  from f(4) obtain b new_root where b: "entity_data_builder a = Some b" "NewRoot b = Some new_root"
    by (auto simp: extraction_fails_def split: option.splits)
  from extraction_fails_payload [OF f(4,3)] f(1,2,3) have "\<not> payloads_defined a rs message"
    unfolding payloads_defined_def by blast
  then have "rules_loop a rs message s \<noteq> Some (True, s')" for s'
    using rules_loop_defined by blast
  moreover have "rules_loop a rs message s \<noteq> None"
    using b by (rule rules_loop_no_abort)
  ultimately show ?thesis
    by (cases "rules_loop a rs message s") (auto split: bool.splits)
qed

lemma rules_loop_False_extraction:
  assumes "rules_loop a rs message s = Some (False, s')"
  shows "\<exists>cr\<in>set rs. \<exists>m\<in>set (rule_matches cr message). \<exists>ra\<in>set (rule_actions (rule cr)).
           extraction_fails a ra m"
proof -
  from rules_loop_False [OF assms] obtain cr m ra where
    cr: "cr \<in> set rs" "m \<in> set (rule_matches cr message)" "ra \<in> set (rule_actions (rule cr))"
      "rule_entity_data a (HasEntityData (rule cr)) ra m = ReturnFalse"
    by blast
  from ReturnFalse_extraction_fails [OF cr(4)] cr(1-3) show ?thesis
    by blast
qed

lemma rule_matches_error:
  assumes "pattern r message = ms @ e # rest"
    and "\<forall>m\<in>set ms. found m \<and> status m = kNoError" and "status e \<noteq> kNoError"
  shows "rule_matches r message = ms"
  using assms by (simp add: rule_matches_def takeWhile_tail)

lemma SuggestActionsFromRules_last:
  assumes "messages conv \<noteq> []"
  shows "SuggestActionsFromRules a conv s =
           rules_loop a (rules a) (message_text (last (messages conv))) s"
  using assms by (cases "messages conv") (simp_all add: SuggestActionsFromRules_def)

text \<open>
  C6: a rule pass that succeeds depends on the conversation only through the text of its
  last message, and appends to the suggestions exactly one suggestion for every match of
  every rule and every action of that rule, in order (their number is the sum over the
  rules of matches times actions). The suggestion carries the response text the action
  declares (empty if none), its type, its score, no annotations, and the payload: the
  empty string when no action of the rule declares entity data, and otherwise the
  serialization of the root record of the builder merged with the static entity data of
  the action, with the capturing groups of the action set on it from the match.
\<close>

theorem C6_SuggestActionsFromRules:
  assumes "SuggestActionsFromRules a conv s = Some (True, s')"
  shows "s' = s\<lparr>actions := actions s @
                 expected_rule_suggestions a (rules a) (message_text (last (messages conv)))\<rparr> \<and>
         expected_rule_suggestions a (rules a) (message_text (last (messages conv))) =
           concat (map (\<lambda>r. concat (map (\<lambda>m. map (\<lambda>ra.
               \<lparr>response_text = (case spec_response_text (action ra) of None \<Rightarrow> [] | Some t \<Rightarrow> t),
                suggestion_type = spec_type (action ra),
                suggestion_score = spec_score (action ra),
                suggestion_annotations = [],
                serialized_entity_data = the (entity_payload_spec a (rule r) ra m)\<rparr>)
             (rule_actions (rule r)))
             (rule_matches r (message_text (last (messages conv)))))) (rules a)) \<and>
         payloads_defined a (rules a) (message_text (last (messages conv))) \<and>
         (\<forall>r ra m.
            (\<forall>ra'\<in>set (rule_actions r).
               spec_serialized_entity_data (action ra') = None \<and> capturing_group ra' = None)
            \<longrightarrow> entity_payload_spec a r ra m = Some []) \<and>
         (\<forall>r ra m builder new_root.
            (\<exists>ra'\<in>set (rule_actions r).
               spec_serialized_entity_data (action ra') \<noteq> None \<or> capturing_group ra' \<noteq> None) \<and>
            entity_data_builder a = Some builder \<and> NewRoot builder = Some new_root
            \<longrightarrow> entity_payload_spec a r ra m =
                  map_option (Serialize builder)
                    (set_captured_fields a
                       (case capturing_group ra of None \<Rightarrow> [] | Some groups \<Rightarrow> groups) m
                       (case spec_serialized_entity_data (action ra) of
                          None \<Rightarrow> new_root
                        | Some static \<Rightarrow> MergeFromSerializedFlatbuffer builder static new_root))) \<and>
         length (expected_rule_suggestions a (rules a) (message_text (last (messages conv)))) =
           (\<Sum>r\<leftarrow>rules a. length (rule_matches r (message_text (last (messages conv)))) *
                            length (rule_actions (rule r))) \<and>
         (\<forall>conv'. messages conv' \<noteq> [] \<and>
            message_text (last (messages conv')) = message_text (last (messages conv))
            \<longrightarrow> SuggestActionsFromRules a conv' s = SuggestActionsFromRules a conv s)"
proof (intro conjI)
  from assms have ne: "messages conv \<noteq> []"
    by (auto simp: SuggestActionsFromRules_def split: list.splits)
  with assms have r: "rules_loop a (rules a) (message_text (last (messages conv))) s = Some (True, s')"
    by (simp add: SuggestActionsFromRules_last)
  from rules_loop_defined [OF r]
  show d: "payloads_defined a (rules a) (message_text (last (messages conv)))" .
  from rules_loop_complete [OF d, of s] r
  show "s' = s\<lparr>actions := actions s @
                 expected_rule_suggestions a (rules a) (message_text (last (messages conv)))\<rparr>"
    by simp
  show "\<forall>conv'. messages conv' \<noteq> [] \<and>
            message_text (last (messages conv')) = message_text (last (messages conv))
            \<longrightarrow> SuggestActionsFromRules a conv' s = SuggestActionsFromRules a conv s"
    using ne by (simp add: SuggestActionsFromRules_last)
next
  show "expected_rule_suggestions a (rules a) (message_text (last (messages conv))) =
           concat (map (\<lambda>r. concat (map (\<lambda>m. map (\<lambda>ra.
               \<lparr>response_text = (case spec_response_text (action ra) of None \<Rightarrow> [] | Some t \<Rightarrow> t),
                suggestion_type = spec_type (action ra),
                suggestion_score = spec_score (action ra),
                suggestion_annotations = [],
                serialized_entity_data = the (entity_payload_spec a (rule r) ra m)\<rparr>)
             (rule_actions (rule r)))
             (rule_matches r (message_text (last (messages conv)))))) (rules a))"
    unfolding expected_rule_suggestions_def expected_match_suggestions_def suggestion_spec_def
    by (rule refl)
next
  show "\<forall>r ra m.
            (\<forall>ra'\<in>set (rule_actions r).
               spec_serialized_entity_data (action ra') = None \<and> capturing_group ra' = None)
            \<longrightarrow> entity_payload_spec a r ra m = Some []"
    by (simp add: entity_payload_spec_def declares_entity_data_def)
next
  show "\<forall>r ra m builder new_root.
            (\<exists>ra'\<in>set (rule_actions r).
               spec_serialized_entity_data (action ra') \<noteq> None \<or> capturing_group ra' \<noteq> None) \<and>
            entity_data_builder a = Some builder \<and> NewRoot builder = Some new_root
            \<longrightarrow> entity_payload_spec a r ra m =
                  map_option (Serialize builder)
                    (set_captured_fields a
                       (case capturing_group ra of None \<Rightarrow> [] | Some groups \<Rightarrow> groups) m
                       (case spec_serialized_entity_data (action ra) of
                          None \<Rightarrow> new_root
                        | Some static \<Rightarrow> MergeFromSerializedFlatbuffer builder static new_root))"
    by (auto simp: entity_payload_spec_def declares_entity_data_def)
next
  show "length (expected_rule_suggestions a (rules a) (message_text (last (messages conv)))) =
           (\<Sum>r\<leftarrow>rules a. length (rule_matches r (message_text (last (messages conv)))) *
                            length (rule_actions (rule r)))"
    by (rule length_expected_rule_suggestions)
qed

subsection \<open>Failure of a request\<close>

lemma case_result_id:
  "(case x of None \<Rightarrow> None | Some (False, r) \<Rightarrow> Some (False, r) | Some (True, r) \<Rightarrow> Some (True, r)) = x"
  by (auto split: option.splits bool.splits)

lemma gather_after_input_length_False:
  assumes "gather_after_input_length a conv opts n r1 = Some (False, r)"
  shows "\<exists>r2. SuggestActionsFromRules a conv r2 = Some (False, r)"
  using assms
  by (auto simp: gather_after_input_length_def case_result_id split: if_splits option.splits)

lemma GatherActionsSuggestions_False_extraction:
  assumes "GatherActionsSuggestions a conv ann opts r0 = Some (False, r)"
  shows "num_messages_of a conv \<le> 0 \<or>
         (\<exists>cr\<in>set (rules a). \<exists>m\<in>set (rule_matches cr (message_text (last (messages conv)))).
            \<exists>ra\<in>set (rule_actions (rule cr)). extraction_fails a ra m)"
proof (cases "num_messages_of a conv \<le> 0")
  case True
  then show ?thesis by simp
next
  case False
  with assms have ne: "messages conv \<noteq> []"
    by (auto simp: GatherActionsSuggestions_def split: if_splits)
  from assms ne False obtain r1 where
    "gather_after_input_length a conv opts (nat (num_messages_of a conv)) r1 = Some (False, r)"
    by (auto simp: GatherActionsSuggestions_def split: if_splits option.splits)
  then obtain r2 where "SuggestActionsFromRules a conv r2 = Some (False, r)"
    by (auto dest: gather_after_input_length_False)
  with ne have "rules_loop a (rules a) (message_text (last (messages conv))) r2 = Some (False, r)"
    by (simp add: SuggestActionsFromRules_last)
  from rules_loop_False_extraction [OF this] show ?thesis
    by simp
qed

lemma GatherActionsSuggestions_reaches_rule_pass:
  assumes "reaches_rule_pass a conv ann opts r2"
  shows "GatherActionsSuggestions a conv ann opts (new_response a) =
           SuggestActionsFromRules a conv r2"
proof -
  let ?n = "nat (num_messages_of a conv)"
  from assms obtain r1 where
    ne: "messages conv \<noteq> []" and pos: "0 < num_messages_of a conv"
    and gates: "passes_gates a conv ?n"
    and ann: "SuggestActionsFromAnnotations a conv opts ann (new_response a) = Some r1"
    and m: "SuggestActionsFromModel a conv ?n opts r1 = Some r2"
    and ns: "\<not> (suppress_on_sensitive_topic (preconditions (model a)) \<and>
           output_filtered_sensitivity r2)"
    unfolding reaches_rule_pass_def by blast
  have "gather_after_input_length a conv opts ?n r1 = SuggestActionsFromRules a conv r2"
    using gates m ns
    by (auto simp: gather_after_input_length_def passes_gates_def
        split: option.splits bool.splits)
  then show ?thesis
    using ne pos ann gates
    by (simp add: GatherActionsSuggestions_def passes_gates_def)
qed

text \<open>
  C1, amended: if \<^verbatim>\<open>GatherActionsSuggestions\<close> fails, or it succeeds and \<^verbatim>\<open>RankActions\<close>
  fails, then \<^verbatim>\<open>SuggestActions\<close> returns the response with its actions cleared. Gathering
  fails when no message is selected, and it fails when the request reaches the rule pass
  and a capturing group cannot be set for an action of a match of a rule; it fails in
  no other case. An error status of the matcher is not a failure: it ends the matches of
  that rule, and a rule pass in which every action of every match has its payload
  succeeds with all their suggestions, whatever \<^verbatim>\<open>Find\<close> reports after the matches.
\<close>

theorem C1_failure_empties_actions:
  "(GatherActionsSuggestions a conv ann opts (new_response a) = Some (False, r)
      \<longrightarrow> SuggestActions a conv ann opts = Some (r\<lparr>actions := []\<rparr>) \<and>
          (num_messages_of a conv \<le> 0 \<or>
           (\<exists>cr\<in>set (rules a). \<exists>m\<in>set (rule_matches cr (message_text (last (messages conv)))).
              \<exists>ra\<in>set (rule_actions (rule cr)). extraction_fails a ra m))) \<and>
   (GatherActionsSuggestions a conv ann opts (new_response a) = Some (True, r) \<and>
    \<not> fst (RankActions a r)
      \<longrightarrow> SuggestActions a conv ann opts = Some ((snd (RankActions a r))\<lparr>actions := []\<rparr>)) \<and>
   (messages conv \<noteq> [] \<and> num_messages_of a conv \<le> 0
      \<longrightarrow> GatherActionsSuggestions a conv ann opts (new_response a) =
            Some (False, new_response a) \<and>
          SuggestActions a conv ann opts = Some ((new_response a)\<lparr>actions := []\<rparr>)) \<and>
   (reaches_rule_pass a conv ann opts r2
      \<longrightarrow> GatherActionsSuggestions a conv ann opts (new_response a) =
            SuggestActionsFromRules a conv r2) \<and>
   (messages conv \<noteq> [] \<and>
    (\<exists>cr\<in>set (rules a). \<exists>m\<in>set (rule_matches cr (message_text (last (messages conv)))).
       \<exists>ra\<in>set (rule_actions (rule cr)). extraction_fails a ra m)
      \<longrightarrow> (\<exists>s'. SuggestActionsFromRules a conv s = Some (False, s'))) \<and>
   (reaches_rule_pass a conv ann opts r2 \<and>
    (\<exists>cr\<in>set (rules a). \<exists>m\<in>set (rule_matches cr (message_text (last (messages conv)))).
       \<exists>ra\<in>set (rule_actions (rule cr)). extraction_fails a ra m)
      \<longrightarrow> (\<exists>s'. GatherActionsSuggestions a conv ann opts (new_response a) = Some (False, s') \<and>
            SuggestActions a conv ann opts = Some (s'\<lparr>actions := []\<rparr>))) \<and>
   (messages conv \<noteq> [] \<and>
    payloads_defined a (rules a) (message_text (last (messages conv)))
      \<longrightarrow> SuggestActionsFromRules a conv s =
            Some (True, s\<lparr>actions := actions s @
              expected_rule_suggestions a (rules a)
                (message_text (last (messages conv)))\<rparr>)) \<and>
   (\<forall>(cr::CompiledRule) ms e rest. pattern cr (message_text (last (messages conv))) = ms @ e # rest \<and>
      (\<forall>m\<in>set ms. found m \<and> status m = kNoError) \<and> status e \<noteq> kNoError
      \<longrightarrow> rule_matches cr (message_text (last (messages conv))) = ms)"
proof (intro conjI impI allI)
  assume "GatherActionsSuggestions a conv ann opts (new_response a) = Some (False, r)"
  then show "SuggestActions a conv ann opts = Some (r\<lparr>actions := []\<rparr>)"
    by (simp add: SuggestActions_def)
next
  assume "GatherActionsSuggestions a conv ann opts (new_response a) = Some (False, r)"
  then show "num_messages_of a conv \<le> 0 \<or>
           (\<exists>cr\<in>set (rules a). \<exists>m\<in>set (rule_matches cr (message_text (last (messages conv)))).
              \<exists>ra\<in>set (rule_actions (rule cr)). extraction_fails a ra m)"
    by (rule GatherActionsSuggestions_False_extraction)
next
  assume "GatherActionsSuggestions a conv ann opts (new_response a) = Some (True, r) \<and>
    \<not> fst (RankActions a r)"
  then show "SuggestActions a conv ann opts = Some ((snd (RankActions a r))\<lparr>actions := []\<rparr>)"
    by (cases "RankActions a r") (simp add: SuggestActions_def)
next
  assume h: "messages conv \<noteq> [] \<and> num_messages_of a conv \<le> 0"
  then show g: "GatherActionsSuggestions a conv ann opts (new_response a) =
            Some (False, new_response a)"
    by (simp add: GatherActionsSuggestions_def)
  then show "SuggestActions a conv ann opts = Some ((new_response a)\<lparr>actions := []\<rparr>)"
    by (simp add: SuggestActions_def)
next
  assume "reaches_rule_pass a conv ann opts r2"
  then show "GatherActionsSuggestions a conv ann opts (new_response a) =
            SuggestActionsFromRules a conv r2"
    by (rule GatherActionsSuggestions_reaches_rule_pass)
next
  assume h: "messages conv \<noteq> [] \<and>
    (\<exists>cr\<in>set (rules a). \<exists>m\<in>set (rule_matches cr (message_text (last (messages conv)))).
       \<exists>ra\<in>set (rule_actions (rule cr)). extraction_fails a ra m)"
  then have "\<exists>s'. rules_loop a (rules a) (message_text (last (messages conv))) s = Some (False, s')"
    by (intro rules_loop_fails) simp
  with h show "\<exists>s'. SuggestActionsFromRules a conv s = Some (False, s')"
    by (simp add: SuggestActionsFromRules_last)
next
  assume h: "reaches_rule_pass a conv ann opts r2 \<and>
    (\<exists>cr\<in>set (rules a). \<exists>m\<in>set (rule_matches cr (message_text (last (messages conv)))).
       \<exists>ra\<in>set (rule_actions (rule cr)). extraction_fails a ra m)"
  then have ne: "messages conv \<noteq> []"
    by (simp add: reaches_rule_pass_def)
  from h have g: "GatherActionsSuggestions a conv ann opts (new_response a) =
      SuggestActionsFromRules a conv r2"
    by (intro GatherActionsSuggestions_reaches_rule_pass) simp
  from h have "\<exists>s'. rules_loop a (rules a) (message_text (last (messages conv))) r2 =
      Some (False, s')"
    by (intro rules_loop_fails) simp
  then obtain s' where "SuggestActionsFromRules a conv r2 = Some (False, s')"
    using ne by (auto simp: SuggestActionsFromRules_last)
  with g have "GatherActionsSuggestions a conv ann opts (new_response a) = Some (False, s') \<and>
            SuggestActions a conv ann opts = Some (s'\<lparr>actions := []\<rparr>)"
    by (simp add: SuggestActions_def)
  then show "\<exists>s'. GatherActionsSuggestions a conv ann opts (new_response a) = Some (False, s') \<and>
            SuggestActions a conv ann opts = Some (s'\<lparr>actions := []\<rparr>)"
    by (rule exI)
next
  assume h: "messages conv \<noteq> [] \<and>
    payloads_defined a (rules a) (message_text (last (messages conv)))"
  then show "SuggestActionsFromRules a conv s =
            Some (True, s\<lparr>actions := actions s @
              expected_rule_suggestions a (rules a)
                (message_text (last (messages conv)))\<rparr>)"
    by (simp add: SuggestActionsFromRules_last rules_loop_complete)
next
  fix cr :: CompiledRule and ms e rest
  assume "pattern cr (message_text (last (messages conv))) = ms @ e # rest \<and>
      (\<forall>m\<in>set ms. found m \<and> status m = kNoError) \<and> status e \<noteq> kNoError"
  then show "rule_matches cr (message_text (last (messages conv))) = ms"
    using rule_matches_error [of cr "message_text (last (messages conv))" ms e rest] by blast
qed


subsection \<open>The pipeline on the example engines\<close>

lemma pipeline_engine_fields:
  "preconditions (model (pipeline_engine p spec executor rs)) = p"
  "tflite_model_spec (model (pipeline_engine p spec executor rs)) = spec"
  "annotation_actions_spec (model (pipeline_engine p spec executor rs)) = None"
  "max_conversation_history_length (model (pipeline_engine p spec executor rs)) = - 1"
  "smart_reply_action_type (model (pipeline_engine p spec executor rs)) = ''text_reply''"
  "action_type (model (pipeline_engine p spec executor rs)) = []"
  "num_smart_replies (model (pipeline_engine p spec executor rs)) = 3"
  "rules (pipeline_engine p spec executor rs) = rs"
  "low_confidence_rules (pipeline_engine p spec executor rs) = []"
  "model_executor (pipeline_engine p spec executor rs) = executor"
  "entity_data_builder (pipeline_engine p spec executor rs) = Some example_builder"
  "RankActions (pipeline_engine p spec executor rs) = (\<lambda>response. (True, response))"
  "ParseLocales (pipeline_engine p spec executor rs) = (\<lambda>s. Some [])"
  "SetFieldFromCapturingGroup (pipeline_engine p spec executor rs) =
     (\<lambda>gid field matcher entity_data.
        case group matcher gid of None \<Rightarrow> None | Some g \<Rightarrow> Some (entity_data @ g))"
  "initial_scores (pipeline_engine p spec executor rs) = (- 1, - 1)"
  "float_quotient (pipeline_engine p spec executor rs) = (\<lambda>x y. real_of_int x / real_of_int y)"
  by (simp_all add: pipeline_engine_def example_engine_def example_model_def)

lemma SuggestActionsFromAnnotations_no_spec:
  "annotation_actions_spec (model a) = None \<Longrightarrow>
   SuggestActionsFromAnnotations a conv opts ann r = Some r"
  by (simp add: SuggestActionsFromAnnotations_def)

lemma low_confidence_messages_loop_no_rules:
  "low_confidence_rules a = [] \<Longrightarrow> \<not> low_confidence_messages_loop a ms"
  by (induction ms) simp_all

lemma input_step_snd:
  assumes "\<And>s. ParseLocales a s = Some []"
    and "handle_missing_locale_as_supported (preconditions (model a))"
  shows "snd (fold (input_step a) ms st) = snd st + int (length ms)"
  using assms
  by (induction ms arbitrary: st)
     (auto simp: input_step_def IsAnyLocaleSupportedByModel_def split: prod.splits)

text \<open>
  The pipeline of an engine without annotation mapping and low-confidence rules, for
  which every message has a supported locale.
\<close>

lemma GatherActionsSuggestions_plain:
  assumes "annotation_actions_spec (model a) = None" and "low_confidence_rules a = []"
    and "\<And>s. ParseLocales a s = Some []"
    and "handle_missing_locale_as_supported (preconditions (model a))"
    and "\<not> float_quotient a (int (length (messages conv))) (int (length (messages conv)))
           < min_locale_match_fraction (preconditions (model a))"
    and "max_conversation_history_length (model a) < 0"
    and "messages conv \<noteq> []"
  shows "GatherActionsSuggestions a conv ann opts r =
     (if too_much_or_not_enough_input (preconditions (model a))
           (\<Sum>m\<leftarrow>messages conv. int (length (message_text m)))
      then Some (True, r)
      else
        (case SuggestActionsFromModel a conv (length (messages conv)) opts r of
           None \<Rightarrow> None
         | Some r' \<Rightarrow>
            (if suppress_on_sensitive_topic (preconditions (model a)) \<and>
                output_filtered_sensitivity r'
             then Some (True, r')
             else SuggestActionsFromRules a conv r')))"
proof -
  have n: "num_messages_of a conv = int (length (messages conv))"
    using assms(6) by (simp add: num_messages_of_def)
  have l: "last_messages conv (length (messages conv)) = messages conv"
    by (simp add: last_messages_def)
  have len: "input_text_length a conv (length (messages conv)) =
      (\<Sum>m\<leftarrow>messages conv. int (length (message_text m)))"
    by (simp add: input_text_length_sum l)
  have frac: "num_matching_locales a conv (length (messages conv)) = int (length (messages conv))"
    using assms(3,4) by (simp add: num_matching_locales_def l input_step_snd)
  have low: "\<not> IsLowConfidenceInput a conv (length (messages conv))"
    using assms(2) by (simp add: IsLowConfidenceInput_def low_confidence_messages_loop_no_rules)
  show ?thesis
    using assms(1,5,7) low
    by (simp add: GatherActionsSuggestions_def n len frac gather_after_input_length_def
        SuggestActionsFromAnnotations_no_spec case_result_id cong: option.case_cong if_cong)
qed

lemma SuggestActionsFromModel_no_executor:
  "model_executor a = None \<Longrightarrow> n \<le> length (messages conv) \<Longrightarrow>
   SuggestActionsFromModel a conv n opts r = Some r"
  by (simp add: SuggestActionsFromModel_def)

lemma example_preconditions_fields:
  "min_input_length example_preconditions = 0"
  "max_input_length example_preconditions = - 1"
  "handle_missing_locale_as_supported example_preconditions"
  "min_locale_match_fraction example_preconditions = 0"
  "suppress_on_sensitive_topic example_preconditions"
  "max_sensitive_topic_score example_preconditions = 1"
  "min_smart_reply_triggering_score example_preconditions = 0"
  by (simp_all add: example_preconditions_def)

lemma example_action_fields:
  "spec_serialized_entity_data (example_action t) = None"
  "spec_response_text (example_action t) = None"
  "spec_type (example_action t) = t"
  by (simp_all add: example_action_def)

lemma example_rule_fields:
  "rule_actions (rule (example_rule t finds)) =
     [\<lparr>action = example_action t, capturing_group = None\<rparr>]"
  "pattern (example_rule t finds) message = finds"
  "\<not> HasEntityData (rule (example_rule t finds))"
  by (simp_all add: example_rule_def HasEntityData_def example_action_fields)

lemma example_find_fields:
  "found (example_find f s) = f"
  "status (example_find f s) = s"
  "group (example_find f s) gid = None"
  by (simp_all add: example_find_def)

lemma example_conversation_fields:
  "messages (example_conversation ts) = map example_message ts"
  "message_text (example_message t) = t"
  by (simp_all add: example_conversation_def example_message_def)

lemma new_response_pipeline_engine:
  "new_response (pipeline_engine p spec executor rs) = new_response example_engine"
  by (simp add: new_response_def pipeline_engine_fields example_engine_def)

text \<open>The pipeline of the example engines without an executor.\<close>

lemma GatherActionsSuggestions_pipeline_engine:
  assumes "ts \<noteq> []" and "handle_missing_locale_as_supported p"
    and "min_locale_match_fraction p \<le> 1"
  shows "GatherActionsSuggestions (pipeline_engine p spec None rs) (example_conversation ts)
           ann opts r =
     (if too_much_or_not_enough_input p (\<Sum>t\<leftarrow>ts. int (length t))
      then Some (True, r)
      else if suppress_on_sensitive_topic p \<and> output_filtered_sensitivity r
      then Some (True, r)
      else SuggestActionsFromRules (pipeline_engine p spec None rs) (example_conversation ts) r)"
proof -
  let ?E = "pipeline_engine p spec None rs" and ?c = "example_conversation ts"
  have m: "SuggestActionsFromModel ?E ?c (length (messages ?c)) opts r = Some r"
    by (rule SuggestActionsFromModel_no_executor) (simp_all add: pipeline_engine_fields)
  have s: "(\<Sum>m\<leftarrow>messages ?c. int (length (message_text m))) = (\<Sum>t\<leftarrow>ts. int (length t))"
    by (simp add: example_conversation_fields comp_def)
  have "GatherActionsSuggestions ?E ?c ann opts r =
     (if too_much_or_not_enough_input (preconditions (model ?E))
           (\<Sum>m\<leftarrow>messages ?c. int (length (message_text m)))
      then Some (True, r)
      else
        (case SuggestActionsFromModel ?E ?c (length (messages ?c)) opts r of
           None \<Rightarrow> None
         | Some r' \<Rightarrow>
            (if suppress_on_sensitive_topic (preconditions (model ?E)) \<and>
                output_filtered_sensitivity r'
             then Some (True, r')
             else SuggestActionsFromRules ?E ?c r')))"
    using assms
    by (intro GatherActionsSuggestions_plain)
       (simp_all add: pipeline_engine_fields example_conversation_fields)
  then show ?thesis
    unfolding m s by (simp add: pipeline_engine_fields)
qed

lemma eval_capturing_rules:
  "SuggestActionsFromRules
     (pipeline_engine p spec executor [capturing_rule [example_find True 0]])
     (example_conversation [''Hi'', ''Flight LX 38'']) r =
   Some (False, r\<lparr>actions := actions r @ [rule_suggestion (example_action ''view_calendar'') []]\<rparr>)"
  by (simp add: SuggestActionsFromRules_def pipeline_engine_fields example_conversation_def
      capturing_rule_def example_find_def kNoError_def HasEntityData_def rule_entity_data_def
      example_builder_def example_action_fields)

lemma eval_capturing_gather:
  "GatherActionsSuggestions
     (pipeline_engine example_preconditions example_spec None [capturing_rule [example_find True 0]])
     (example_conversation [''Hi'', ''Flight LX 38'']) None example_options
     (new_response
        (pipeline_engine example_preconditions example_spec None
           [capturing_rule [example_find True 0]])) =
   Some (False, (new_response example_engine)
     \<lparr>actions := [rule_suggestion (example_action ''view_calendar'') []]\<rparr>)"
  by (simp add: GatherActionsSuggestions_pipeline_engine example_preconditions_fields
      too_much_or_not_enough_input_def new_response_pipeline_engine eval_capturing_rules)
     (simp add: new_response_def)

lemma eval_rules_one_match:
  "SuggestActionsFromRules
     (pipeline_engine p spec executor [example_rule t (example_find True 0 # example_find f 1 # finds)])
     (example_conversation [''Hi'', ''Let us meet at 5pm'']) r =
   Some (True, r\<lparr>actions := actions r @ [rule_suggestion (example_action t) []]\<rparr>)"
  by (simp add: SuggestActionsFromRules_def pipeline_engine_fields example_conversation_fields
      example_rule_fields example_find_fields kNoError_def rule_entity_data_def)

text \<open>
  C1, as stated, fails for an error status of the matcher: the rule below
  matches once, then \<^verbatim>\<open>Find\<close> leaves an error status. The request succeeds and returns
  the suggestion of the first match.
\<close>

theorem C1_matcher_error_counterexample:
  "status (pattern (example_rule ''view_calendar''
             [example_find True 0, example_find True 1, example_find True 0])
           ''Let us meet at 5pm'' ! 1) \<noteq> kNoError \<and>
   SuggestActions
     (pipeline_engine example_preconditions example_spec None
        [example_rule ''view_calendar''
           [example_find True 0, example_find True 1, example_find True 0]])
     (example_conversation [''Hi'', ''Let us meet at 5pm'']) None example_options =
   Some ((new_response example_engine)
     \<lparr>actions := [rule_suggestion (example_action ''view_calendar'') []]\<rparr>)"
  by (simp add: SuggestActions_def GatherActionsSuggestions_pipeline_engine
      example_preconditions_fields too_much_or_not_enough_input_def
      new_response_pipeline_engine eval_rules_one_match pipeline_engine_fields
      example_rule_fields example_find_fields kNoError_def)
     (simp add: new_response_def)

text \<open>
  A request that fails in the rule pass: the first action of the match is appended, the
  capturing group 1 of the second cannot be set, and the response comes back without
  actions.
\<close>

theorem C1_failure_empties_actions_witness:
  "SuggestActions
     (pipeline_engine example_preconditions example_spec None [capturing_rule [example_find True 0]])
     (example_conversation [''Hi'', ''Flight LX 38'']) None example_options =
   Some (new_response example_engine) \<and>
   actions (new_response example_engine) = [] \<and>
   SetFieldFromCapturingGroup
     (pipeline_engine example_preconditions example_spec None [capturing_rule [example_find True 0]])
     1 ''flight'' (example_find True 0) [] = None"
proof -
  let ?E = "pipeline_engine example_preconditions example_spec None
              [capturing_rule [example_find True 0]]"
  have "SuggestActions ?E (example_conversation [''Hi'', ''Flight LX 38'']) None example_options =
          Some ((new_response example_engine)
            \<lparr>actions := [rule_suggestion (example_action ''view_calendar'') []]\<rparr>
            \<lparr>actions := []\<rparr>)"
    using C1_failure_empties_actions
      [of ?E "example_conversation [''Hi'', ''Flight LX 38'']" None example_options
         "(new_response example_engine)
            \<lparr>actions := [rule_suggestion (example_action ''view_calendar'') []]\<rparr>",
       THEN conjunct1, THEN mp, OF eval_capturing_gather]
    by (rule conjunct1)
  then show ?thesis
    by (simp add: new_response_def pipeline_engine_fields example_find_fields)
qed

lemma entity_rule_fields:
  "rule_actions (rule (entity_rule finds)) =
     [\<lparr>action =
         \<lparr>spec_type = ''track_flight'', spec_response_text = Some ''Track'',
          spec_serialized_entity_data = Some ''flight='', spec_score = 0.9\<rparr>,
       capturing_group = Some [\<lparr>group_id = 1, entity_field = ''flight''\<rparr>]\<rparr>]"
  "pattern (entity_rule finds) message = finds"
  "HasEntityData (rule (entity_rule finds))"
  by (simp_all add: entity_rule_def HasEntityData_def)

lemma example_find_group_fields:
  "found (example_find_group g)"
  "status (example_find_group g) = 0"
  "group (example_find_group g) 1 = Some g"
  by (simp_all add: example_find_group_def)

lemma eval_entity_rules:
  "SuggestActionsFromRules
     (pipeline_engine example_preconditions example_spec None
        [entity_rule [example_find_group ''LX38'', example_find False 0],
         example_rule ''view_calendar'' [example_find True 0, example_find False 1]])
     (example_conversation [''Hi'', ''Flight LX38'']) (new_response example_engine) =
   Some (True, (new_response example_engine)
     \<lparr>actions :=
        [\<lparr>response_text = ''Track'', suggestion_type = ''track_flight'', suggestion_score = 0.9,
          suggestion_annotations = [], serialized_entity_data = ''flight=LX38''\<rparr>,
         \<lparr>response_text = [], suggestion_type = ''view_calendar'', suggestion_score = 0.9,
          suggestion_annotations = [], serialized_entity_data = []\<rparr>]\<rparr>)"
  by (simp add: SuggestActionsFromRules_def pipeline_engine_fields example_conversation_fields
      example_rule_fields example_find_fields kNoError_def rule_entity_data_def
      entity_rule_fields example_find_group_fields example_builder_def rule_suggestion_def
      example_action_def)
     (simp add: new_response_def)

text \<open>
  A rule with entity data and a rule without: the first action gets the static entity
  data followed by the captured group, the second the empty payload (scenario A).
\<close>

theorem C6_SuggestActionsFromRules_witness:
  "SuggestActionsFromRules
     (pipeline_engine example_preconditions example_spec None
        [entity_rule [example_find_group ''LX38'', example_find False 0],
         example_rule ''view_calendar'' [example_find True 0, example_find False 1]])
     (example_conversation [''Hi'', ''Flight LX38'']) (new_response example_engine) =
   Some (True, (new_response example_engine)
     \<lparr>actions :=
        [\<lparr>response_text = ''Track'', suggestion_type = ''track_flight'', suggestion_score = 0.9,
          suggestion_annotations = [], serialized_entity_data = ''flight=LX38''\<rparr>,
         \<lparr>response_text = [], suggestion_type = ''view_calendar'', suggestion_score = 0.9,
          suggestion_annotations = [], serialized_entity_data = []\<rparr>]\<rparr>) \<and>
   expected_rule_suggestions
     (pipeline_engine example_preconditions example_spec None
        [entity_rule [example_find_group ''LX38'', example_find False 0],
         example_rule ''view_calendar'' [example_find True 0, example_find False 1]])
     [entity_rule [example_find_group ''LX38'', example_find False 0],
      example_rule ''view_calendar'' [example_find True 0, example_find False 1]]
     ''Flight LX38'' =
     [\<lparr>response_text = ''Track'', suggestion_type = ''track_flight'', suggestion_score = 0.9,
       suggestion_annotations = [], serialized_entity_data = ''flight=LX38''\<rparr>,
      \<lparr>response_text = [], suggestion_type = ''view_calendar'', suggestion_score = 0.9,
       suggestion_annotations = [], serialized_entity_data = []\<rparr>]"
proof -
  let ?rs = "[entity_rule [example_find_group ''LX38'', example_find False 0],
         example_rule ''view_calendar'' [example_find True 0, example_find False 1]]"
  let ?E = "pipeline_engine example_preconditions example_spec None ?rs"
  let ?xs = "[\<lparr>response_text = ''Track'', suggestion_type = ''track_flight'',
          suggestion_score = 0.9,
          suggestion_annotations = [], serialized_entity_data = ''flight=LX38''\<rparr>,
         \<lparr>response_text = [], suggestion_type = ''view_calendar'', suggestion_score = 0.9,
          suggestion_annotations = [], serialized_entity_data = []\<rparr>]"
  note w = C6_SuggestActionsFromRules [OF eval_entity_rules, THEN conjunct1]
  have "actions ((new_response example_engine)\<lparr>actions := ?xs\<rparr>) =
     actions ((new_response example_engine)\<lparr>actions := actions (new_response example_engine) @
       expected_rule_suggestions ?E (rules ?E)
         (message_text (last (messages (example_conversation [''Hi'', ''Flight LX38'']))))\<rparr>)"
    using w by (rule arg_cong)
  then have "expected_rule_suggestions ?E ?rs ''Flight LX38'' = ?xs"
    by (simp add: example_conversation_fields new_response_def pipeline_engine_fields)
  with eval_entity_rules show ?thesis
    by (intro conjI)
qed

lemma eval_rules_hello:
  "SuggestActionsFromRules
     (pipeline_engine p spec executor [example_rule t [example_find True 0]])
     (example_conversation [''Hello'']) r =
   Some (True, r\<lparr>actions := actions r @ [rule_suggestion (example_action t) []]\<rparr>)"
  by (simp add: SuggestActionsFromRules_def pipeline_engine_fields example_conversation_fields
      example_rule_fields example_find_fields kNoError_def rule_entity_data_def)

text \<open>
  C3, as stated, fails for \<open>max_input_length = 0\<close>: a text of 5 bytes is not
  outside the range of the specification (a maximum of 0 is to mean no bound), but the
  pipeline stops at the gate, without the suggestion that the rule pass adds when the
  maximum is negative.
\<close>

theorem C3_max_zero_counterexample:
  "\<not> outside_input_length_range_spec (example_preconditions\<lparr>max_input_length := 0\<rparr>) 5 \<and>
   input_text_length
     (pipeline_engine (example_preconditions\<lparr>max_input_length := 0\<rparr>) example_spec None
        [example_rule ''view_calendar'' [example_find True 0]])
     (example_conversation [''Hello'']) 1 = 5 \<and>
   GatherActionsSuggestions
     (pipeline_engine (example_preconditions\<lparr>max_input_length := 0\<rparr>) example_spec None
        [example_rule ''view_calendar'' [example_find True 0]])
     (example_conversation [''Hello'']) None example_options (new_response example_engine) =
   Some (True, new_response example_engine) \<and>
   GatherActionsSuggestions
     (pipeline_engine (example_preconditions\<lparr>max_input_length := - 1\<rparr>) example_spec None
        [example_rule ''view_calendar'' [example_find True 0]])
     (example_conversation [''Hello'']) None example_options (new_response example_engine) =
   Some (True, (new_response example_engine)
     \<lparr>actions := [rule_suggestion (example_action ''view_calendar'') []]\<rparr>)"
  by (simp add: GatherActionsSuggestions_pipeline_engine example_preconditions_def
      too_much_or_not_enough_input_def outside_input_length_range_spec_def
      input_text_length_sum last_messages_def example_conversation_fields eval_rules_hello)
     (simp add: new_response_def)

text \<open>Scenario B: \<open>min_input_length = 10\<close> and a text of 5 bytes.\<close>

theorem C3_input_length_gate_witness:
  "(\<Sum>m\<leftarrow>last_messages (example_conversation [''Hello'']) 1. int (length (message_text m))) = 5 \<and>
   min_input_length (example_preconditions\<lparr>min_input_length := 10\<rparr>) = 10 \<and>
   GatherActionsSuggestions
     (pipeline_engine (example_preconditions\<lparr>min_input_length := 10\<rparr>) example_spec None
        [example_rule ''view_calendar'' [example_find True 0]])
     (example_conversation [''Hello'']) None example_options (new_response example_engine) =
   Some (True, new_response example_engine) \<and>
   actions (new_response example_engine) = [] \<and>
   \<not> output_filtered_sensitivity (new_response example_engine) \<and>
   \<not> output_filtered_locale_mismatch (new_response example_engine)"
proof -
  let ?E = "pipeline_engine (example_preconditions\<lparr>min_input_length := 10\<rparr>) example_spec None
        [example_rule ''view_calendar'' [example_find True 0]]"
  let ?c = "example_conversation [''Hello'']"
  have n: "num_messages_of ?E ?c = 1"
    by (simp add: num_messages_of_def pipeline_engine_fields example_conversation_fields)
  have len: "(5::int) = (\<Sum>m\<leftarrow>last_messages ?c (nat (num_messages_of ?E ?c)).
                  int (length (message_text m)))"
    by (simp add: n last_messages_def example_conversation_fields)
  have ne: "messages ?c \<noteq> []"
    by (simp add: example_conversation_fields)
  have pos: "0 < num_messages_of ?E ?c"
    by (simp add: n)
  have ann: "SuggestActionsFromAnnotations ?E ?c example_options None (new_response ?E) =
      Some (new_response example_engine)"
    by (simp add: SuggestActionsFromAnnotations_no_spec pipeline_engine_fields
        new_response_pipeline_engine)
  from C3_input_length_gate [OF ne pos ann len, THEN conjunct1]
  have "GatherActionsSuggestions ?E ?c None example_options (new_response ?E) =
      Some (True, new_response example_engine)"
    by (simp add: pipeline_engine_fields)
  then show ?thesis
    using len by (simp add: n new_response_pipeline_engine) (simp add: new_response_def)
qed

section \<open>Sensitive topics\<close>

lemma read_triggering_score_read:
  assumes "triggering_score_read a interpreter"
  obtains r1 where "read_triggering_score a interpreter opts r = Some r1"
    and "actions r1 = actions r"
proof (cases "output_triggering_score (tflite_model_spec (model a)) \<ge> 0")
  case True
  with assms have "read_triggering_score a interpreter opts r =
      Some (r\<lparr>triggering_score :=
                 data (float_output interpreter
                   (output_triggering_score (tflite_model_spec (model a)))) 0,
               output_filtered_min_triggering_score :=
                 (\<not> ignore_min_replies_triggering_threshold opts \<and>
                  data (float_output interpreter
                    (output_triggering_score (tflite_model_spec (model a)))) 0 <
                    min_smart_reply_triggering_score (preconditions (model a)))\<rparr>)"
    by (simp add: triggering_score_read_def read_triggering_score_def Let_def)
  then show ?thesis
    by (rule that) simp
next
  case False
  then have "read_triggering_score a interpreter opts r = Some r"
    by (simp add: read_triggering_score_def)
  then show ?thesis
    by (rule that) simp
qed

lemma ReadModelOutput_sensitive:
  assumes "triggering_score_read a interpreter" and "sensitivity_exceeds a interpreter"
  shows "output_filtered_sensitivity (ReadModelOutput a interpreter opts r) \<and>
         actions (ReadModelOutput a interpreter opts r) = actions r \<and>
         sensitivity_score (ReadModelOutput a interpreter opts r) =
           data (float_output interpreter
             (output_sensitive_topic_score (tflite_model_spec (model a)))) 0"
proof -
  from assms(1) obtain r1 where r1: "read_triggering_score a interpreter opts r = Some r1"
    and a1: "actions r1 = actions r"
    by (rule read_triggering_score_read)
  from assms(2) have "read_sensitive_topic_score a interpreter r1 =
      Some (r1\<lparr>sensitivity_score := data (float_output interpreter
                 (output_sensitive_topic_score (tflite_model_spec (model a)))) 0,
               output_filtered_sensitivity := True\<rparr>)"
    by (simp add: sensitivity_exceeds_def read_sensitive_topic_score_def Let_def)
  with r1 a1 show ?thesis
    by (simp add: ReadModelOutput_def)
qed

lemma SuggestActionsFromModel_invoked:
  assumes "model_invoked a conv n interpreter" and "n \<le> length (messages conv)"
  shows "SuggestActionsFromModel a conv n opts r = Some (ReadModelOutput a interpreter opts r)"
  using assms
  by (auto simp: model_invoked_def SuggestActionsFromModel_def split: option.splits)

lemma gather_after_input_length_invoked:
  assumes "passes_gates a conv n" and "model_invoked a conv n interpreter"
    and "n \<le> length (messages conv)"
  shows "gather_after_input_length a conv opts n r =
     (if suppress_on_sensitive_topic (preconditions (model a)) \<and>
         output_filtered_sensitivity (ReadModelOutput a interpreter opts r)
      then Some (True, ReadModelOutput a interpreter opts r)
      else SuggestActionsFromRules a conv (ReadModelOutput a interpreter opts r))"
  using assms(1)
  by (simp add: gather_after_input_length_def passes_gates_def case_result_id
      SuggestActionsFromModel_invoked [OF assms(2,3)])

lemma replies_loop_flag:
  "output_filtered_sensitivity (replies_loop a scores i replies r) = output_filtered_sensitivity r"
  by (induction a scores i replies r rule: replies_loop.induct) simp_all

lemma action_scores_loop_flag:
  "output_filtered_sensitivity (action_scores_loop scores i ts r) = output_filtered_sensitivity r"
  by (induction scores i ts r rule: action_scores_loop.induct) simp_all

lemma read_replies_actions_flag:
  "output_filtered_sensitivity
     (read_actions_suggestions a interpreter (read_smart_replies a interpreter r)) =
   output_filtered_sensitivity r"
  by (simp add: read_actions_suggestions_def read_smart_replies_def replies_loop_flag
      action_scores_loop_flag)

lemma read_triggering_score_flag:
  "read_triggering_score a interpreter opts r = Some r1 \<Longrightarrow>
   output_filtered_sensitivity r1 = output_filtered_sensitivity r"
  by (auto simp: read_triggering_score_def Let_def split: if_splits)

lemma read_triggering_score_None:
  "read_triggering_score a interpreter opts r = None \<longleftrightarrow> \<not> triggering_score_read a interpreter"
  by (auto simp: read_triggering_score_def triggering_score_read_def Let_def)

lemma ReadModelOutput_flag:
  "output_filtered_sensitivity (ReadModelOutput a interpreter opts r) =
     (if triggering_score_read a interpreter \<and>
         0 \<le> output_sensitive_topic_score (tflite_model_spec (model a)) \<and>
         is_valid (float_output interpreter
           (output_sensitive_topic_score (tflite_model_spec (model a)))) \<and>
         dim (float_output interpreter
           (output_sensitive_topic_score (tflite_model_spec (model a)))) 0 = 1
      then max_sensitive_topic_score (preconditions (model a)) <
             data (float_output interpreter
               (output_sensitive_topic_score (tflite_model_spec (model a)))) 0
      else output_filtered_sensitivity r)"
proof (cases "read_triggering_score a interpreter opts r")
  case None
  then have "\<not> triggering_score_read a interpreter"
    by (simp add: read_triggering_score_None)
  with None show ?thesis
    by (simp add: ReadModelOutput_def)
next
  case (Some r1)
  then have t: "triggering_score_read a interpreter"
    using read_triggering_score_None [of a interpreter opts r] by simp
  from Some have f: "output_filtered_sensitivity r1 = output_filtered_sensitivity r"
    by (rule read_triggering_score_flag)
  show ?thesis
    using t f
    by (simp add: ReadModelOutput_def Some read_sensitive_topic_score_def Let_def
        read_replies_actions_flag)
qed

text \<open>
  C10, amended: \<^verbatim>\<open>ReadModelOutput\<close> reads the sensitivity score when the block before it
  has not returned early and the sensitivity output is there, valid and of one element;
  it then sets \<open>output_filtered_sensitivity\<close> exactly when the score is above
  \<open>max_sensitive_topic_score\<close>, and otherwise leaves the flag as it was. When the score
  is read and is above the maximum, the response has the flag set and the actions it had
  before: no smart reply and no action class is appended. This does not depend on
  \<open>suppress_on_sensitive_topic\<close>; when that is not set, the pipeline goes on to the rule
  pass with this response.
\<close>

theorem C10_ReadModelOutput_sensitive:
  "output_filtered_sensitivity (ReadModelOutput a interpreter opts r) =
     (if triggering_score_read a interpreter \<and>
         0 \<le> output_sensitive_topic_score (tflite_model_spec (model a)) \<and>
         is_valid (float_output interpreter
           (output_sensitive_topic_score (tflite_model_spec (model a)))) \<and>
         dim (float_output interpreter
           (output_sensitive_topic_score (tflite_model_spec (model a)))) 0 = 1
      then max_sensitive_topic_score (preconditions (model a)) <
             data (float_output interpreter
               (output_sensitive_topic_score (tflite_model_spec (model a)))) 0
      else output_filtered_sensitivity r) \<and>
   (triggering_score_read a interpreter \<and> sensitivity_exceeds a interpreter \<longrightarrow>
      output_filtered_sensitivity (ReadModelOutput a interpreter opts r) \<and>
      actions (ReadModelOutput a interpreter opts r) = actions r \<and>
      (passes_gates a conv n \<and> model_invoked a conv n interpreter \<and>
       n \<le> length (messages conv) \<and>
       \<not> suppress_on_sensitive_topic (preconditions (model a))
       \<longrightarrow> gather_after_input_length a conv opts n r =
             SuggestActionsFromRules a conv (ReadModelOutput a interpreter opts r)))"
proof (intro conjI impI)
  show "output_filtered_sensitivity (ReadModelOutput a interpreter opts r) =
     (if triggering_score_read a interpreter \<and>
         0 \<le> output_sensitive_topic_score (tflite_model_spec (model a)) \<and>
         is_valid (float_output interpreter
           (output_sensitive_topic_score (tflite_model_spec (model a)))) \<and>
         dim (float_output interpreter
           (output_sensitive_topic_score (tflite_model_spec (model a)))) 0 = 1
      then max_sensitive_topic_score (preconditions (model a)) <
             data (float_output interpreter
               (output_sensitive_topic_score (tflite_model_spec (model a)))) 0
      else output_filtered_sensitivity r)"
    by (rule ReadModelOutput_flag)
next
  assume "triggering_score_read a interpreter \<and> sensitivity_exceeds a interpreter"
  then have h: "triggering_score_read a interpreter" "sensitivity_exceeds a interpreter"
    by simp_all
  show "output_filtered_sensitivity (ReadModelOutput a interpreter opts r)"
    and "actions (ReadModelOutput a interpreter opts r) = actions r"
    using ReadModelOutput_sensitive [OF h, of opts r] by simp_all
next
  assume "passes_gates a conv n \<and> model_invoked a conv n interpreter \<and>
          n \<le> length (messages conv) \<and>
          \<not> suppress_on_sensitive_topic (preconditions (model a))"
  then have g: "passes_gates a conv n" "model_invoked a conv n interpreter"
    "n \<le> length (messages conv)"
    and ns: "\<not> suppress_on_sensitive_topic (preconditions (model a))"
    by simp_all
  show "gather_after_input_length a conv opts n r =
          SuggestActionsFromRules a conv (ReadModelOutput a interpreter opts r)"
    using ns by (simp add: gather_after_input_length_invoked [OF g])
qed

lemma num_messages_of_le: "num_messages_of a conv \<le> int (length (messages conv))"
  by (simp add: num_messages_of_def Let_def)

text \<open>
  C2, amended: for every conversation that reaches the model, whose sensitivity score is read and
  is above \<open>max_sensitive_topic_score\<close>, with \<open>suppress_on_sensitive_topic\<close> set:
  gathering succeeds with the response of the annotation pass, the sensitivity score and
  \<open>output_filtered_sensitivity\<close> set and no further action (none of the model, and the
  rule pass does not run); and for a ranker that filters, the final response has the flag
  set and only actions of the annotation pass.
\<close>

theorem C2_sensitive_topic_suppressed:
  assumes "messages conv \<noteq> []" and "0 < num_messages_of a conv"
    and "SuggestActionsFromAnnotations a conv opts ann (new_response a) = Some r1"
    and "passes_gates a conv (nat (num_messages_of a conv))"
    and "model_invoked a conv (nat (num_messages_of a conv)) interpreter"
    and "triggering_score_read a interpreter" and "sensitivity_exceeds a interpreter"
    and "suppress_on_sensitive_topic (preconditions (model a))"
    and "ranker_filters a"
  shows "GatherActionsSuggestions a conv ann opts (new_response a) =
           Some (True, ReadModelOutput a interpreter opts r1) \<and>
         actions (ReadModelOutput a interpreter opts r1) = actions r1 \<and>
         extends_actions (new_response a) r1 \<and>
         (\<exists>response. SuggestActions a conv ann opts = Some response \<and>
            output_filtered_sensitivity response \<and>
            set (actions response) \<subseteq> set (actions r1))"
proof -
  let ?n = "nat (num_messages_of a conv)"
  let ?g = "ReadModelOutput a interpreter opts r1"
  have n: "?n \<le> length (messages conv)"
    using num_messages_of_le [of a conv] by simp
  note s = ReadModelOutput_sensitive [OF assms(6,7), of opts r1]
  have "gather_after_input_length a conv opts ?n r1 = Some (True, ?g)"
    using assms(8) s by (simp add: gather_after_input_length_invoked [OF assms(4,5) n])
  moreover have "\<not> too_much_or_not_enough_input (preconditions (model a))
         (input_text_length a conv ?n)"
    using assms(4) by (simp add: passes_gates_def)
  ultimately have g: "GatherActionsSuggestions a conv ann opts (new_response a) = Some (True, ?g)"
    using assms(1,2,3) by (simp add: GatherActionsSuggestions_def)
  obtain ok response where rank: "RankActions a ?g = (ok, response)"
    by (cases "RankActions a ?g")
  from assms(9) rank have filt: "set (actions response) \<subseteq> set (actions ?g)"
    "output_filtered_sensitivity response = output_filtered_sensitivity ?g"
    unfolding ranker_filters_def by (metis snd_conv)+
  have "SuggestActions a conv ann opts =
          Some (if ok then response else response\<lparr>actions := []\<rparr>)"
    using g rank by (cases ok) (simp_all add: SuggestActions_def)
  moreover have "output_filtered_sensitivity (if ok then response else response\<lparr>actions := []\<rparr>)"
    using filt(2) s by simp
  moreover have "set (actions (if ok then response else response\<lparr>actions := []\<rparr>))
                   \<subseteq> set (actions r1)"
    using filt(1) s by simp
  ultimately have "\<exists>response. SuggestActions a conv ann opts = Some response \<and>
            output_filtered_sensitivity response \<and>
            set (actions response) \<subseteq> set (actions r1)"
    by blast
  with g s SuggestActionsFromAnnotations_extends [OF assms(3)] show ?thesis
    by simp
qed


subsection \<open>The example with a sensitivity score of 2 and a threshold of 1\<close>

lemma sensitivity_spec_fields:
  "output_sensitive_topic_score sensitivity_spec = 0"
  "output_triggering_score sensitivity_spec = - 1"
  "output_replies sensitivity_spec = 1"
  "output_replies_scores sensitivity_spec = 2"
  "output_actions_scores sensitivity_spec = - 1"
  by (simp_all add: sensitivity_spec_def example_spec_def)

lemma example_interpreter_fields:
  "is_valid (float_output (example_interpreter s) i)"
  "dim (float_output (example_interpreter s) i) d = 1"
  "tensor_size (float_output (example_interpreter s) i) = 1"
  "data (float_output (example_interpreter s) i) k = s"
  "string_output (example_interpreter s) i = [''Sure'']"
  by (simp_all add: example_interpreter_def)

lemma eval_ReadModelOutput:
  "ReadModelOutput (pipeline_engine p sensitivity_spec executor rs) (example_interpreter s) opts r =
     (if s > max_sensitive_topic_score p
      then r\<lparr>sensitivity_score := s, output_filtered_sensitivity := True\<rparr>
      else if output_filtered_min_triggering_score r
      then r\<lparr>sensitivity_score := s, output_filtered_sensitivity := False\<rparr>
      else r\<lparr>sensitivity_score := s, output_filtered_sensitivity := False,
             actions := actions r @
               [\<lparr>response_text = ''Sure'', suggestion_type = ''text_reply'',
                 suggestion_score = s, suggestion_annotations = [],
                 serialized_entity_data = []\<rparr>]\<rparr>)"
  by (simp add: ReadModelOutput_def read_triggering_score_def read_sensitive_topic_score_def
      read_smart_replies_def read_actions_suggestions_def pipeline_engine_fields
      sensitivity_spec_fields example_interpreter_fields Let_def)

lemma example_gates:
  assumes "handle_missing_locale_as_supported p" and "min_locale_match_fraction p \<le> 1"
    and "\<not> too_much_or_not_enough_input p (\<Sum>t\<leftarrow>ts. int (length t))" and "ts \<noteq> []"
  shows "passes_gates (pipeline_engine p spec executor rs) (example_conversation ts) (length ts)"
proof -
  let ?E = "pipeline_engine p spec executor rs" and ?c = "example_conversation ts"
  have l: "last_messages ?c (length ts) = messages ?c"
    by (simp add: last_messages_def example_conversation_fields)
  have len: "input_text_length ?E ?c (length ts) = (\<Sum>t\<leftarrow>ts. int (length t))"
    by (simp add: input_text_length_sum l example_conversation_fields comp_def)
  have frac: "num_matching_locales ?E ?c (length ts) = int (length ts)"
    using assms(1)
    by (simp add: num_matching_locales_def l input_step_snd pipeline_engine_fields
        example_conversation_fields)
  have low: "\<not> IsLowConfidenceInput ?E ?c (length ts)"
    by (simp add: IsLowConfidenceInput_def low_confidence_messages_loop_no_rules
        pipeline_engine_fields)
  show ?thesis
    using assms(2,3,4) low by (simp add: passes_gates_def len frac pipeline_engine_fields)
qed

lemma example_invoked:
  "model_invoked (pipeline_engine p spec (Some (example_executor interpreter)) rs) conv n interpreter"
  by (simp add: model_invoked_def pipeline_engine_fields example_executor_def)

lemma example_ranker_filters: "ranker_filters (pipeline_engine p spec executor rs)"
  by (simp add: ranker_filters_def pipeline_engine_fields)

theorem C2_sensitive_topic_suppressed_witness:
  "data (float_output (example_interpreter 2) (output_sensitive_topic_score sensitivity_spec)) 0
     > max_sensitive_topic_score example_preconditions \<and>
   suppress_on_sensitive_topic example_preconditions \<and>
   GatherActionsSuggestions
     (pipeline_engine example_preconditions sensitivity_spec
        (Some (example_executor (example_interpreter 2)))
        [example_rule ''view_calendar'' [example_find True 0]])
     (example_conversation [''Hello'']) None example_options (new_response example_engine) =
   Some (True, (new_response example_engine)
     \<lparr>sensitivity_score := 2, output_filtered_sensitivity := True\<rparr>) \<and>
   actions (new_response example_engine) = []"
proof -
  let ?E = "pipeline_engine example_preconditions sensitivity_spec
        (Some (example_executor (example_interpreter 2)))
        [example_rule ''view_calendar'' [example_find True 0]]"
  let ?c = "example_conversation [''Hello'']"
  have n: "num_messages_of ?E ?c = 1"
    by (simp add: num_messages_of_def pipeline_engine_fields example_conversation_fields)
  have ne: "messages ?c \<noteq> []"
    by (simp add: example_conversation_fields)
  have pos: "0 < num_messages_of ?E ?c"
    by (simp add: n)
  have ann: "SuggestActionsFromAnnotations ?E ?c example_options None (new_response ?E) =
      Some (new_response example_engine)"
    by (simp add: SuggestActionsFromAnnotations_no_spec pipeline_engine_fields
        new_response_pipeline_engine)
  have "passes_gates ?E ?c (length [''Hello''])"
    by (rule example_gates)
       (simp_all add: example_preconditions_fields too_much_or_not_enough_input_def)
  then have gates: "passes_gates ?E ?c (nat (num_messages_of ?E ?c))"
    by (simp add: n)
  have inv: "model_invoked ?E ?c (nat (num_messages_of ?E ?c)) (example_interpreter 2)"
    by (rule example_invoked)
  have trig: "triggering_score_read ?E (example_interpreter 2)"
    by (simp add: triggering_score_read_def pipeline_engine_fields sensitivity_spec_fields)
  have sens: "sensitivity_exceeds ?E (example_interpreter 2)"
    by (simp add: sensitivity_exceeds_def pipeline_engine_fields sensitivity_spec_fields
        example_interpreter_fields example_preconditions_fields)
  have supp: "suppress_on_sensitive_topic (preconditions (model ?E))"
    by (simp add: pipeline_engine_fields example_preconditions_fields)
  from C2_sensitive_topic_suppressed
    [OF ne pos ann gates inv trig sens supp example_ranker_filters, THEN conjunct1]
  show ?thesis
    by (simp add: eval_ReadModelOutput new_response_pipeline_engine example_preconditions_fields
        example_interpreter_fields)
       (simp add: new_response_def)
qed

theorem C10_ReadModelOutput_sensitive_witness:
  "ReadModelOutput
     (pipeline_engine (example_preconditions\<lparr>suppress_on_sensitive_topic := False\<rparr>)
        sensitivity_spec (Some (example_executor (example_interpreter 2)))
        [example_rule ''view_calendar'' [example_find True 0]])
     (example_interpreter 2) example_options (new_response example_engine) =
     (new_response example_engine)\<lparr>sensitivity_score := 2, output_filtered_sensitivity := True\<rparr> \<and>
   gather_after_input_length
     (pipeline_engine (example_preconditions\<lparr>suppress_on_sensitive_topic := False\<rparr>)
        sensitivity_spec (Some (example_executor (example_interpreter 2)))
        [example_rule ''view_calendar'' [example_find True 0]])
     (example_conversation [''Hello'']) example_options 1 (new_response example_engine) =
   Some (True, (new_response example_engine)
     \<lparr>sensitivity_score := 2, output_filtered_sensitivity := True,
      actions := [rule_suggestion (example_action ''view_calendar'') []]\<rparr>) \<and>
   actions (ReadModelOutput
     (pipeline_engine (example_preconditions\<lparr>suppress_on_sensitive_topic := False\<rparr>)
        sensitivity_spec (Some (example_executor (example_interpreter (1 / 2))))
        [example_rule ''view_calendar'' [example_find True 0]])
     (example_interpreter (1 / 2)) example_options (new_response example_engine)) =
   [\<lparr>response_text = ''Sure'', suggestion_type = ''text_reply'', suggestion_score = 1 / 2,
     suggestion_annotations = [], serialized_entity_data = []\<rparr>]"
proof -
  let ?p = "example_preconditions\<lparr>suppress_on_sensitive_topic := False\<rparr>"
  let ?E = "pipeline_engine ?p sensitivity_spec
        (Some (example_executor (example_interpreter 2)))
        [example_rule ''view_calendar'' [example_find True 0]]"
  let ?c = "example_conversation [''Hello'']"
  have "passes_gates ?E ?c (length [''Hello''])"
    by (rule example_gates)
       (simp_all add: example_preconditions_def too_much_or_not_enough_input_def)
  then have gates: "passes_gates ?E ?c 1"
    by simp
  have inv: "model_invoked ?E ?c 1 (example_interpreter 2)"
    by (rule example_invoked)
  have trig: "triggering_score_read ?E (example_interpreter 2)"
    by (simp add: triggering_score_read_def pipeline_engine_fields sensitivity_spec_fields)
  have sens: "sensitivity_exceeds ?E (example_interpreter 2)"
    by (simp add: sensitivity_exceeds_def pipeline_engine_fields sensitivity_spec_fields
        example_interpreter_fields example_preconditions_def)
  have le: "1 \<le> length (messages ?c)"
    by (simp add: example_conversation_fields)
  have ns: "\<not> suppress_on_sensitive_topic (preconditions (model ?E))"
    by (simp add: pipeline_engine_fields)
  from C10_ReadModelOutput_sensitive
    [where a = ?E and interpreter = "example_interpreter 2" and opts = example_options
       and r = "new_response example_engine" and conv = ?c and n = 1,
     THEN conjunct2, THEN mp, OF conjI [OF trig sens],
     THEN conjunct2, THEN conjunct2, THEN mp, OF conjI [OF gates conjI [OF inv conjI [OF le ns]]]]
  have "gather_after_input_length ?E ?c example_options 1 (new_response example_engine) =
      SuggestActionsFromRules ?E ?c
        (ReadModelOutput ?E (example_interpreter 2) example_options (new_response example_engine))" .
  then show ?thesis
    by (simp add: eval_ReadModelOutput eval_rules_hello example_preconditions_def)
       (simp add: new_response_def)
qed

subsection \<open>The example with an invalid triggering tensor\<close>

lemma untriggered_fields:
  "output_sensitive_topic_score untriggered_spec = 0"
  "output_triggering_score untriggered_spec = 3"
  "is_valid (float_output (untriggered_interpreter s) 0)"
  "dim (float_output (untriggered_interpreter s) 0) d = 1"
  "data (float_output (untriggered_interpreter s) 0) k = s"
  "\<not> is_valid (float_output (untriggered_interpreter s) 3)"
  by (simp_all add: untriggered_spec_def untriggered_interpreter_def sensitivity_spec_fields)

lemma eval_untriggered:
  "ReadModelOutput (pipeline_engine p untriggered_spec executor rs) (untriggered_interpreter s)
     opts r = r"
  by (simp add: ReadModelOutput_def read_triggering_score_def pipeline_engine_fields
      untriggered_fields)

text \<open>
  C10, as stated, fails when the block that reads the triggering score returns early: the
  sensitivity output is valid, of one element and above \<open>max_sensitive_topic_score\<close>, but
  the triggering output is not valid, \<^verbatim>\<open>ReadModelOutput\<close> returns before it reads the
  sensitivity score, and \<open>output_filtered_sensitivity\<close> is not set.
\<close>

theorem C10_early_return_counterexample:
  "output_sensitive_topic_score untriggered_spec = 0 \<and>
   is_valid (float_output (untriggered_interpreter 2) 0) \<and>
   dim (float_output (untriggered_interpreter 2) 0) 0 = 1 \<and>
   data (float_output (untriggered_interpreter 2) 0) 0 >
     max_sensitive_topic_score example_preconditions \<and>
   \<not> output_filtered_sensitivity
       (ReadModelOutput
          (pipeline_engine example_preconditions untriggered_spec
             (Some (example_executor (untriggered_interpreter 2))) [])
          (untriggered_interpreter 2) example_options (new_response example_engine))"
  by (simp add: eval_untriggered untriggered_fields example_preconditions_fields)
     (simp add: new_response_def)

text \<open>
  C2, as stated, fails in the same case: the model is invoked, its sensitivity output is
  above the threshold and \<open>suppress_on_sensitive_topic\<close> is set, but the final response
  has the suggestion of the rule pass and \<open>output_filtered_sensitivity\<close> is not set.
\<close>

theorem C2_early_return_counterexample:
  "model_invoked
     (pipeline_engine example_preconditions untriggered_spec
        (Some (example_executor (untriggered_interpreter 2)))
        [example_rule ''view_calendar'' [example_find True 0]])
     (example_conversation [''Hello'']) 1 (untriggered_interpreter 2) \<and>
   data (float_output (untriggered_interpreter 2)
     (output_sensitive_topic_score untriggered_spec)) 0 >
     max_sensitive_topic_score example_preconditions \<and>
   suppress_on_sensitive_topic example_preconditions \<and>
   SuggestActions
     (pipeline_engine example_preconditions untriggered_spec
        (Some (example_executor (untriggered_interpreter 2)))
        [example_rule ''view_calendar'' [example_find True 0]])
     (example_conversation [''Hello'']) None example_options =
   Some ((new_response example_engine)
     \<lparr>actions := [rule_suggestion (example_action ''view_calendar'') []]\<rparr>) \<and>
   \<not> output_filtered_sensitivity ((new_response example_engine)
     \<lparr>actions := [rule_suggestion (example_action ''view_calendar'') []]\<rparr>)"
proof -
  let ?E = "pipeline_engine example_preconditions untriggered_spec
        (Some (example_executor (untriggered_interpreter 2)))
        [example_rule ''view_calendar'' [example_find True 0]]"
  let ?c = "example_conversation [''Hello'']"
  have inv: "model_invoked ?E ?c 1 (untriggered_interpreter 2)"
    by (rule example_invoked)
  have m: "SuggestActionsFromModel ?E ?c (length (messages ?c)) example_options
      (new_response example_engine) = Some (new_response example_engine)"
    using SuggestActionsFromModel_invoked [OF inv, of example_options "new_response example_engine"]
    by (simp add: example_conversation_fields eval_untriggered)
  have "GatherActionsSuggestions ?E ?c None example_options (new_response example_engine) =
     (if too_much_or_not_enough_input (preconditions (model ?E))
           (\<Sum>m\<leftarrow>messages ?c. int (length (message_text m)))
      then Some (True, new_response example_engine)
      else
        (case SuggestActionsFromModel ?E ?c (length (messages ?c)) example_options
                (new_response example_engine) of
           None \<Rightarrow> None
         | Some r' \<Rightarrow>
            (if suppress_on_sensitive_topic (preconditions (model ?E)) \<and>
                output_filtered_sensitivity r'
             then Some (True, r')
             else SuggestActionsFromRules ?E ?c r')))"
    by (intro GatherActionsSuggestions_plain)
       (simp_all add: pipeline_engine_fields example_conversation_fields
          example_preconditions_fields)
  then have g: "GatherActionsSuggestions ?E ?c None example_options (new_response ?E) =
      Some (True, (new_response example_engine)
        \<lparr>actions := [rule_suggestion (example_action ''view_calendar'') []]\<rparr>)"
    unfolding m
    by (simp add: pipeline_engine_fields example_preconditions_fields
        too_much_or_not_enough_input_def new_response_pipeline_engine eval_rules_hello
        example_conversation_fields)
       (simp add: new_response_def)
  have "SuggestActions ?E ?c None example_options =
   Some ((new_response example_engine)
     \<lparr>actions := [rule_suggestion (example_action ''view_calendar'') []]\<rparr>)"
    by (simp add: SuggestActions_def g pipeline_engine_fields)
  with inv show ?thesis
    by (simp add: untriggered_fields example_preconditions_fields)
       (simp add: new_response_def)
qed

end
